theory Spec2Isabelle
  imports Main "HOL-Library.Sublist"
begin

section \<open>Paths and the file system\<close>

text \<open>
  A path is the list of its components below the root; \<open>joinpath p n\<close> is pathlib's
  \<open>p / n\<close> and \<open>str_path\<close> is \<open>str(p)\<close>. The file system is the finite list of its
  entries; looking a path up takes the first entry with that path. A symbolic link holds
  the (absolute) path it points at.
\<close>

type_synonym path = "string list"

definition joinpath :: "path \<Rightarrow> string \<Rightarrow> path" where
  "joinpath p n = p @ [n]"

definition str_path :: "path \<Rightarrow> string" where
  "str_path p = concat (map (\<lambda>c. ''/'' @ c) p)"

datatype node = File string | Dir | Link path

type_synonym filesys = "(path \<times> node) list"

definition lookup :: "filesys \<Rightarrow> path \<Rightarrow> node option" where
  "lookup fs p = map_of fs p"

definition rebase :: "path \<Rightarrow> path \<Rightarrow> path \<Rightarrow> path" where
  "rebase src dst q = dst @ drop (length src) q"

definition subtree :: "path \<Rightarrow> path \<Rightarrow> filesys \<Rightarrow> filesys" where
  "subtree src dst fs =
     map (\<lambda>(q, n). (rebase src dst q, n)) (filter (\<lambda>(q, n). prefix src q) fs)"

definition has_children :: "filesys \<Rightarrow> path \<Rightarrow> bool" where
  "has_children fs d = list_ex (\<lambda>(q, n). strict_prefix d q) fs"

text \<open>
  Python exceptions that the modelled calls raise. All of them are subclasses of
  \<open>Exception\<close>.
\<close>

datatype exn =
    CalledProcessError int
  | FileNotFoundError
  | FileExistsError
  | NotADirectoryError
  | IsADirectoryError
  | OSError string
  | OtherException string

text \<open>What \<open>subprocess.run\<close> does before \<open>check=True\<close> is applied: the child ran and
  exited with a return code, leaving a file system, or the call itself raised.\<close>

datatype proc = Completed int filesys | Failed exn

text \<open>
  The world outside the program: which primitive calls meet an I/O failure, and what the
  cloning child process does. A failing recursive removal may already have deleted part
  of the tree (the paths its predicate names); a failing copy may already have written
  part of the destination.
\<close>

record world =
  remove_fault :: "path \<Rightarrow> filesys \<Rightarrow> (path \<Rightarrow> bool) option"
  copy_fault :: "path \<Rightarrow> path \<Rightarrow> filesys \<Rightarrow> (exn \<times> (path \<Rightarrow> bool)) option"
  symlink_fault :: "path \<Rightarrow> path \<Rightarrow> filesys \<Rightarrow> bool"
  rename_fault :: "path \<Rightarrow> path \<Rightarrow> filesys \<Rightarrow> string option"
  subprocess_run :: "string list \<Rightarrow> filesys \<Rightarrow> proc"

text \<open>The three root directories of \<open>includes.paths\<close>, which the program imports.\<close>

record dirs =
  HYPRDOTS_DOTFILES_DIR :: path
  USER_DOTFILES_DIR :: path
  USER_CONFIGS_DIR :: path

subsection \<open>The primitives of \<open>includes.library\<close>\<close>

text \<open>
  Modelled from the spec: \<open>path_lexists\<close> of \<open>includes.library\<close> is missing; the spec's
  \<open>exists_or_broken_link\<close>: true if the path exists or is a symbolic link whose target
  is missing.
\<close>

definition path_lexists :: "filesys \<Rightarrow> path \<Rightarrow> bool" where
  "path_lexists fs p = (lookup fs p \<noteq> None)"

text \<open>
  Modelled from the spec: \<open>remove\<close> of \<open>includes.library\<close> is missing; recursively
  deletes a file, directory or symlink, returns true if the path does not exist, returns
  false on any I/O failure and never raises.
\<close>

definition remove :: "world \<Rightarrow> path \<Rightarrow> filesys \<Rightarrow> bool \<times> filesys" where
  "remove W p fs =
     (if \<not> path_lexists fs p then (True, fs)
      else case remove_fault W p fs of
             Some gone \<Rightarrow> (False, filter (\<lambda>(q, n). \<not> (prefix p q \<and> gone q)) fs)
           | None \<Rightarrow> (True, filter (\<lambda>(q, n). \<not> prefix p q) fs))"

text \<open>
  Modelled from the spec: \<open>copy\<close> of \<open>includes.library\<close> is missing; recursively copies
  a tree, symlinks as symlinks, so that afterwards every relative path of the source holds
  the same below the destination. What the destination already held at other paths stays
  there: the spec has step 2 remove the old stage first so that the copy does not merge
  with a stale tree. Propagates on I/O error (\<open>Some e\<close> is the raised exception).
\<close>

definition copy :: "world \<Rightarrow> path \<Rightarrow> path \<Rightarrow> filesys \<Rightarrow> exn option \<times> filesys" where
  "copy W src dst fs =
     (case copy_fault W src dst fs of
        Some (e, written) \<Rightarrow>
          (Some e, subtree src dst (filter (\<lambda>(q, n). written q) fs) @ fs)
      | None \<Rightarrow> (None, subtree src dst fs @ fs))"

text \<open>
  Modelled from the spec: \<open>create_symlink\<close> of \<open>includes.library\<close> is missing; a target
  that already is a symlink to the source is a no-op success, a surviving conflicting entry
  is an error, any OS-level failure returns false, and on success the target is a symbolic
  link to the source.
\<close>

definition create_symlink :: "world \<Rightarrow> path \<Rightarrow> path \<Rightarrow> filesys \<Rightarrow> bool \<times> filesys" where
  "create_symlink W source target fs =
     (if lookup fs target = Some (Link source) then (True, fs)
      else if path_lexists fs target then (False, fs)
      else if symlink_fault W source target fs then (False, fs)
      else (True, (target, Link source) # fs))"

subsection \<open>Standard-library calls\<close>

text \<open>\<open>Path.exists\<close> follows symbolic links (at most 40 of them, as Linux does) and is
  false for a dangling one.\<close>

fun resolve :: "nat \<Rightarrow> filesys \<Rightarrow> path \<Rightarrow> node option" where
  "resolve 0 fs p = None"
| "resolve (Suc k) fs p =
     (case lookup fs p of
        Some (Link t) \<Rightarrow> resolve k fs t
      | r \<Rightarrow> r)"

definition path_exists :: "filesys \<Rightarrow> path \<Rightarrow> bool" where
  "path_exists fs p = (resolve 40 fs p \<noteq> None)"

text \<open>\<open>Path.rename\<close> is \<open>os.rename\<close>: a directory replaces only an empty directory, a
  non-directory replaces only a non-directory, and the link itself is renamed.\<close>

definition move_tree :: "path \<Rightarrow> path \<Rightarrow> filesys \<Rightarrow> filesys" where
  "move_tree src dst fs =
     subtree src dst fs @ filter (\<lambda>(q, n). \<not> prefix src q \<and> \<not> prefix dst q) fs"

definition rename :: "world \<Rightarrow> path \<Rightarrow> path \<Rightarrow> filesys \<Rightarrow> exn + filesys" where
  "rename W src dst fs =
     (case lookup fs src of
        None \<Rightarrow> Inl FileNotFoundError
      | Some n \<Rightarrow>
          (case lookup fs dst of
             Some Dir \<Rightarrow>
               if n \<noteq> Dir then Inl IsADirectoryError
               else if has_children fs dst then Inl (OSError ''Directory not empty'')
               else (case rename_fault W src dst fs of
                       Some m \<Rightarrow> Inl (OSError m) | None \<Rightarrow> Inr (move_tree src dst fs))
           | Some d \<Rightarrow>
               if n = Dir then Inl NotADirectoryError
               else (case rename_fault W src dst fs of
                       Some m \<Rightarrow> Inl (OSError m) | None \<Rightarrow> Inr (move_tree src dst fs))
           | None \<Rightarrow>
               (case rename_fault W src dst fs of
                  Some m \<Rightarrow> Inl (OSError m) | None \<Rightarrow> Inr (move_tree src dst fs))))"

text \<open>\<open>subprocess.run(argv, check=True, capture_output=True)\<close>: a non-zero return code
  raises \<open>CalledProcessError\<close>.\<close>

definition run_command :: "world \<Rightarrow> string list \<Rightarrow> filesys \<Rightarrow> exn option \<times> filesys" where
  "run_command W argv fs =
     (case subprocess_run W argv fs of
        Completed rc fs' \<Rightarrow> if rc = 0 then (None, fs') else (Some (CalledProcessError rc), fs')
      | Failed e \<Rightarrow> (Some e, fs))"

section \<open>The run: file system and everything reported or called\<close>

datatype msg =
    Msg string
  | MsgPath string path
  | MsgPaths string path path
  | MsgExn string exn

datatype call =
    PathLexists path
  | PathExists path
  | Remove path
  | Copy path path
  | CreateSymlink path path
  | Rename path path
  | RunCommand "string list"

datatype event =
    LogHeading string
  | PrintHeader string
  | PrintLine
  | SpinnerEnter string
  | SpinnerExit
  | SpinnerUpdate msg
  | SpinnerError msg
  | SpinnerSuccess msg
  | LoggerInfo msg
  | LoggerError msg
  | Sleep nat
  | Call call

record state =
  fs :: filesys
  trace :: "event list"

definition emits :: "event list \<Rightarrow> state \<Rightarrow> state" where
  "emits es s = s\<lparr>trace := trace s @ es\<rparr>"

definition call_path_lexists :: "path \<Rightarrow> state \<Rightarrow> bool \<times> state" where
  "call_path_lexists p s = (path_lexists (fs s) p, emits [Call (PathLexists p)] s)"

definition call_exists :: "path \<Rightarrow> state \<Rightarrow> bool \<times> state" where
  "call_exists p s = (path_exists (fs s) p, emits [Call (PathExists p)] s)"

definition call_remove :: "world \<Rightarrow> path \<Rightarrow> state \<Rightarrow> bool \<times> state" where
  "call_remove W p s =
     (let (ok, fs') = remove W p (fs s)
      in (ok, (emits [Call (Remove p)] s)\<lparr>fs := fs'\<rparr>))"

definition call_copy :: "world \<Rightarrow> path \<Rightarrow> path \<Rightarrow> state \<Rightarrow> exn option \<times> state" where
  "call_copy W src dst s =
     (let (r, fs') = copy W src dst (fs s)
      in (r, (emits [Call (Copy src dst)] s)\<lparr>fs := fs'\<rparr>))"

definition call_create_symlink :: "world \<Rightarrow> path \<Rightarrow> path \<Rightarrow> state \<Rightarrow> bool \<times> state" where
  "call_create_symlink W source target s =
     (let (ok, fs') = create_symlink W source target (fs s)
      in (ok, (emits [Call (CreateSymlink source target)] s)\<lparr>fs := fs'\<rparr>))"

definition call_rename :: "world \<Rightarrow> path \<Rightarrow> path \<Rightarrow> state \<Rightarrow> exn option \<times> state" where
  "call_rename W src dst s =
     (case rename W src dst (fs s) of
        Inl e \<Rightarrow> (Some e, emits [Call (Rename src dst)] s)
      | Inr fs' \<Rightarrow> (None, (emits [Call (Rename src dst)] s)\<lparr>fs := fs'\<rparr>))"

definition call_run_command :: "world \<Rightarrow> string list \<Rightarrow> state \<Rightarrow> exn option \<times> state" where
  "call_run_command W argv s =
     (let (r, fs') = run_command W argv (fs s)
      in (r, (emits [Call (RunCommand argv)] s)\<lparr>fs := fs'\<rparr>))"

section \<open>\<open>DotfilesInstaller\<close>\<close>

record installer =
  dry_run :: bool
  dotfiles_components :: "string list"
  source_dotfiles_components_paths :: "path list"
  target_dotfiles_components_paths :: "path list"

definition components :: "string list" where
  "components =
     [''hypr'', ''waybar'', ''rofi'', ''fish'', ''kitty'', ''neofetch'', ''fastfetch'',
      ''cava'', ''waypaper'', ''swaync'', ''btop'', ''wlogout'', ''atuin'', ''tmux'',
      ''starship.toml'']"

definition init :: "dirs \<Rightarrow> bool \<Rightarrow> installer" where
  "init D dry =
     \<lparr>dry_run = dry,
      dotfiles_components = components,
      source_dotfiles_components_paths = map (joinpath (HYPRDOTS_DOTFILES_DIR D)) components,
      target_dotfiles_components_paths = map (joinpath (USER_DOTFILES_DIR D)) components\<rparr>"

text \<open>A function of the class either returns a value or lets an exception escape.\<close>

datatype 'a outcome = Returned 'a | Raised exn

subsection \<open>Step 1: \<open>_validate_sources\<close>\<close>

fun validate_sources_loop :: "path list \<Rightarrow> state \<Rightarrow> bool \<times> state" where
  "validate_sources_loop [] s = (True, s)"
| "validate_sources_loop (i # rest) s =
     (let (found, s1) = call_path_lexists i s
      in if \<not> found
         then (False, emits [LoggerError (MsgPath ''Missing source: {i}.'' i),
                             SpinnerError (MsgPath ''Missing source: {i}, exiting...'' i)] s1)
         else validate_sources_loop rest s1)"

definition validate_sources :: "installer \<Rightarrow> state \<Rightarrow> bool \<times> state" where
  "validate_sources self s =
     (let s1 = emits [LoggerInfo (Msg ''Validating source dotfiles components.''),
                      SpinnerUpdate (Msg ''Validating source dotfiles components...'')] s
      in if dry_run self then (True, emits [Sleep 2] s1)
         else validate_sources_loop (source_dotfiles_components_paths self) s1)"

subsection \<open>Step 2: \<open>_copy_dotfiles\<close>\<close>

definition copy_dotfiles :: "dirs \<Rightarrow> world \<Rightarrow> installer \<Rightarrow> state \<Rightarrow> bool \<times> state" where
  "copy_dotfiles D W self s =
     (let s1 = emits [LoggerInfo (MsgPath ''Copying dotfiles to {USER_DOTFILES_DIR}''
                                    (USER_DOTFILES_DIR D)),
                      SpinnerUpdate (Msg ''Copying dotfiles...'')] s
      in if dry_run self then (True, emits [Sleep 2] s1)
         else
           let s2 = emits [LoggerInfo (Msg ''Creating dotfiles dir...'')] s1;
               (found, s3) = call_exists (USER_DOTFILES_DIR D) s2;
               s4 = (if found
                     then snd (call_remove W (USER_DOTFILES_DIR D)
                            (emits [LoggerInfo (Msg ''Dotfiles dir already exists, removing it...'')] s3))
                     else s3);
               s5 = emits [LoggerInfo (Msg ''Copying...'')] s4
           in case call_copy W (HYPRDOTS_DOTFILES_DIR D) (USER_DOTFILES_DIR D) s5 of
                (Some e, s6) \<Rightarrow>
                  (False, emits [LoggerError (MsgExn ''Failed to copy dotfiles: {e}'' e),
                                 SpinnerError (Msg ''Failed to copy dotfiles.'')] s6)
              | (None, s6) \<Rightarrow> (True, s6))"

subsection \<open>Step 3: \<open>_verify_copy\<close>\<close>

fun verify_copy_loop :: "path list \<Rightarrow> path list \<Rightarrow> state \<Rightarrow> path list \<times> state" where
  "verify_copy_loop [] missing s = (missing, s)"
| "verify_copy_loop (i # rest) missing s =
     (let (found, s1) = call_path_lexists i s
      in if \<not> found
         then verify_copy_loop rest (missing @ [i])
                (emits [LoggerError (MsgPath ''Copied dotfile component {i} is missing.'' i)] s1)
         else verify_copy_loop rest missing s1)"

definition verify_copy :: "installer \<Rightarrow> state \<Rightarrow> bool \<times> state" where
  "verify_copy self s =
     (let s1 = emits [LoggerInfo (Msg ''Checking if copied successfully or not.'')] s
      in if dry_run self then (True, s1)
         else
           let (missing, s2) = verify_copy_loop (target_dotfiles_components_paths self) [] s1
           in if missing \<noteq> []
              then (False, emits [SpinnerError
                             (Msg ''Some dotfile components are missing, exiting...'')] s2)
              else (True, s2))"

subsection \<open>Step 4: \<open>_remove_existing_configs\<close>\<close>

fun remove_existing_configs_loop ::
  "dirs \<Rightarrow> world \<Rightarrow> string list \<Rightarrow> state \<Rightarrow> bool \<times> state" where
  "remove_existing_configs_loop D W [] s = (True, s)"
| "remove_existing_configs_loop D W (i # rest) s =
     (let file = joinpath (USER_CONFIGS_DIR D) i;
          (ok, s1) = call_remove W file s
      in if \<not> ok
         then (False, emits [SpinnerError
                        (MsgPath ''Failed to remove existing config: {file}.'' file)] s1)
         else remove_existing_configs_loop D W rest s1)"

definition remove_existing_configs ::
  "dirs \<Rightarrow> world \<Rightarrow> installer \<Rightarrow> state \<Rightarrow> bool \<times> state" where
  "remove_existing_configs D W self s =
     (let s1 = emits [LoggerInfo (Msg ''Removing existing configs.''),
                      SpinnerUpdate (Msg ''Removing existing configs...'')] s
      in if dry_run self then (True, emits [Sleep 2] s1)
         else remove_existing_configs_loop D W (dotfiles_components self) s1)"

subsection \<open>Step 5: \<open>_create_links\<close>\<close>

fun create_links_loop ::
  "dirs \<Rightarrow> world \<Rightarrow> string list \<Rightarrow> (path \<times> path) list \<Rightarrow> state
     \<Rightarrow> (path \<times> path) list \<times> state" where
  "create_links_loop D W [] failed_links s = (failed_links, s)"
| "create_links_loop D W (component # rest) failed_links s =
     (let source = joinpath (USER_DOTFILES_DIR D) component;
          target = joinpath (USER_CONFIGS_DIR D) component;
          (ok, s1) = call_create_symlink W source target s
      in if \<not> ok
         then create_links_loop D W rest (failed_links @ [(source, target)])
                (emits [LoggerError (MsgPaths ''Failed to link {source} to {target}.''
                                       source target)] s1)
         else create_links_loop D W rest failed_links s1)"

definition create_links :: "dirs \<Rightarrow> world \<Rightarrow> installer \<Rightarrow> state \<Rightarrow> bool \<times> state" where
  "create_links D W self s =
     (let s1 = emits [LoggerInfo (Msg ''Creating system links.''),
                      SpinnerUpdate (Msg ''Linking new dotfiles...'')] s
      in if dry_run self then (True, emits [Sleep 2] s1)
         else
           let (failed_links, s2) = create_links_loop D W (dotfiles_components self) [] s1
           in if failed_links \<noteq> []
              then (False, emits [SpinnerError
                             (Msg ''Failed to create some links, exiting...'')] s2)
              else (True, s2))"

subsection \<open>Bootstrap: \<open>_install_tpm\<close>\<close>

definition tpm_dir :: "dirs \<Rightarrow> path" where
  "tpm_dir D = joinpath (joinpath (joinpath (USER_DOTFILES_DIR D) ''tmux'') ''plugins'') ''tpm''"

definition tpm_argv :: "dirs \<Rightarrow> string list" where
  "tpm_argv D =
     [''git'', ''clone'', ''https://github.com/tmux-plugins/tpm.git'', str_path (tpm_dir D)]"

text \<open>Lines 132 to 136, which run before the \<open>try\<close>: the removal of an existing
  plugin manager.\<close>

definition tpm_remove_existing :: "dirs \<Rightarrow> world \<Rightarrow> state \<Rightarrow> state" where
  "tpm_remove_existing D W s =
     (let (found, s1) = call_exists (tpm_dir D) s
      in if found then snd (call_remove W (tpm_dir D) s1) else s1)"

definition install_tpm :: "dirs \<Rightarrow> world \<Rightarrow> installer \<Rightarrow> state \<Rightarrow> bool \<times> state" where
  "install_tpm D W self s =
     (let s1 = emits [LoggerInfo (Msg ''Installing TPM (Tmux Plugin Manager)''),
                      SpinnerUpdate (Msg ''Installing TPM for tmux...'')] s
      in if dry_run self then (True, emits [Sleep 2] s1)
         else
           case call_run_command W (tpm_argv D) (tpm_remove_existing D W s1) of
             (None, s2) \<Rightarrow> (True, emits [LoggerInfo (Msg ''TPM installed successfully'')] s2)
           | (Some e, s2) \<Rightarrow>
               (False, emits [LoggerError (MsgExn ''Failed to install TPM: {e}'' e),
                              SpinnerError (Msg ''Failed to install TPM for tmux'')] s2))"

subsection \<open>Bootstrap: \<open>_install_lazyvim\<close>\<close>

definition lazyvim_dir :: "dirs \<Rightarrow> path" where
  "lazyvim_dir D = joinpath (USER_DOTFILES_DIR D) ''nvim''"

definition nvim_config_dir :: "dirs \<Rightarrow> path" where
  "nvim_config_dir D = joinpath (USER_CONFIGS_DIR D) ''nvim''"

definition backup_dir :: "dirs \<Rightarrow> path" where
  "backup_dir D = joinpath (USER_CONFIGS_DIR D) ''nvim.backup''"

definition lazyvim_argv :: "dirs \<Rightarrow> string list" where
  "lazyvim_argv D =
     [''git'', ''clone'', ''https://github.com/LazyVim/starter'', str_path (lazyvim_dir D)]"

text \<open>Lines 83 to 87, which run before the \<open>try\<close>: the removal of the staged editor
  configuration.\<close>

definition lazyvim_remove_existing :: "dirs \<Rightarrow> world \<Rightarrow> state \<Rightarrow> state" where
  "lazyvim_remove_existing D W s =
     (let (found, s1) = call_exists (lazyvim_dir D) s
      in if found then snd (call_remove W (lazyvim_dir D) s1) else s1)"

text \<open>Lines 89 to 96, also outside the \<open>try\<close>: the backup of the live editor
  configuration. \<open>Some e\<close> is an exception raised by \<open>rename\<close>.\<close>

definition lazyvim_backup :: "dirs \<Rightarrow> world \<Rightarrow> state \<Rightarrow> exn option \<times> state" where
  "lazyvim_backup D W s =
     (let (found, s1) = call_exists (nvim_config_dir D) s
      in if found
         then
           let (found2, s2) = call_exists (backup_dir D) s1;
               s3 = (if found2 then snd (call_remove W (backup_dir D) s2) else s2)
           in case call_rename W (nvim_config_dir D) (backup_dir D) s3 of
                (Some e, s4) \<Rightarrow> (Some e, s4)
              | (None, s4) \<Rightarrow>
                  (None, emits [LoggerInfo
                           (MsgPath ''Backed up existing nvim config to {backup_dir}''
                              (backup_dir D))] s4)
         else (None, s1))"

text \<open>Lines 98 to 121: the \<open>try\<close> block and its \<open>except Exception\<close>.\<close>

definition lazyvim_clone :: "dirs \<Rightarrow> world \<Rightarrow> state \<Rightarrow> bool \<times> state" where
  "lazyvim_clone D W s =
     (case call_run_command W (lazyvim_argv D) s of
        (None, s1) \<Rightarrow>
          let git_dir = joinpath (lazyvim_dir D) ''.git'';
              (found, s2) = call_exists git_dir s1;
              s3 = (if found then snd (call_remove W git_dir s2) else s2)
          in (True, emits [LoggerInfo (Msg ''LazyVim installed successfully'')] s3)
      | (Some e, s1) \<Rightarrow>
          (False, emits [LoggerError (MsgExn ''Failed to install LazyVim: {e}'' e),
                         SpinnerError (Msg ''Failed to install LazyVim'')] s1))"

definition install_lazyvim ::
  "dirs \<Rightarrow> world \<Rightarrow> installer \<Rightarrow> state \<Rightarrow> bool outcome \<times> state" where
  "install_lazyvim D W self s =
     (let s1 = emits [LoggerInfo (Msg ''Installing LazyVim''),
                      SpinnerUpdate (Msg ''Installing LazyVim...'')] s
      in if dry_run self then (Returned True, emits [Sleep 2] s1)
         else case lazyvim_backup D W (lazyvim_remove_existing D W s1) of
                (Some e, s2) \<Rightarrow> (Raised e, s2)
              | (None, s2) \<Rightarrow> (let (r, s3) = lazyvim_clone D W s2 in (Returned r, s3)))"

subsection \<open>\<open>install\<close>\<close>

definition install :: "dirs \<Rightarrow> world \<Rightarrow> installer \<Rightarrow> state \<Rightarrow> bool outcome \<times> state" where
  "install D W self s =
     (let s0 = emits [LogHeading ''Dotfiles installer started'',
                      PrintHeader ''Installing dotfiles.'',
                      SpinnerEnter ''Installing dotfiles...''] s;
          (r1, s1) = validate_sources self s0
      in if \<not> r1 then (Returned False, emits [SpinnerExit] s1)
         else
      let (r2, s2) = copy_dotfiles D W self s1
      in if \<not> r2 then (Returned False, emits [SpinnerExit] s2)
         else
      let (r3, s3) = verify_copy self s2
      in if \<not> r3 then (Returned False, emits [SpinnerExit] s3)
         else
      let (r4, s4) = remove_existing_configs D W self s3
      in if \<not> r4 then (Returned False, emits [SpinnerExit] s4)
         else
      let (r5, s5) = create_links D W self s4
      in if \<not> r5 then (Returned False, emits [SpinnerExit] s5)
         else
      let s5' = emits [Sleep 1, SpinnerSuccess (Msg ''Dotfiles installed successfully!''),
                       SpinnerExit, SpinnerEnter ''Installing third-party dots...''] s5;
          (r6, s6) = install_tpm D W self s5'
      in if \<not> r6 then (Returned False, emits [SpinnerExit] s6)
         else
           case install_lazyvim D W self s6 of
             (Raised e, s7) \<Rightarrow> (Raised e, emits [SpinnerExit] s7)
           | (Returned r7, s7) \<Rightarrow>
               if \<not> r7 then (Returned False, emits [SpinnerExit] s7)
               else (Returned True, emits [SpinnerExit, PrintLine] s7))"

section \<open>Reading a run\<close>

text \<open>The calls a run made to the file system and to child processes, in order.\<close>

definition calls_of :: "event list \<Rightarrow> call list" where
  "calls_of es = concat (map (\<lambda>e. case e of Call c \<Rightarrow> [c] | _ \<Rightarrow> []) es)"

text \<open>The messages a run logged at error level, and the events a run added.\<close>

definition logged_errors :: "event list \<Rightarrow> msg list" where
  "logged_errors es = concat (map (\<lambda>e. case e of LoggerError m \<Rightarrow> [m] | _ \<Rightarrow> []) es)"

definition new_events :: "state \<Rightarrow> state \<Rightarrow> event list" where
  "new_events s s' = drop (length (trace s)) (trace s')"

text \<open>The staged component paths that are absent (not even a dangling link).\<close>

definition missing_components :: "dirs \<Rightarrow> filesys \<Rightarrow> path list" where
  "missing_components D f =
     filter (\<lambda>p. \<not> path_lexists f p) (map (joinpath (USER_DOTFILES_DIR D)) components)"

text \<open>The link that step 5 creates for a component, as (source, target), and whether a
  file system holds it.\<close>

definition link_pair :: "dirs \<Rightarrow> string \<Rightarrow> path \<times> path" where
  "link_pair D c = (joinpath (USER_DOTFILES_DIR D) c, joinpath (USER_CONFIGS_DIR D) c)"

definition linked :: "filesys \<Rightarrow> path \<times> path \<Rightarrow> bool" where
  "linked f st = (lookup f (snd st) = Some (Link (fst st)))"

text \<open>Everything a dry run reports, in order.\<close>

definition dry_run_events :: "dirs \<Rightarrow> event list" where
  "dry_run_events D =
     [LogHeading ''Dotfiles installer started'',
      PrintHeader ''Installing dotfiles.'',
      SpinnerEnter ''Installing dotfiles...'',
      LoggerInfo (Msg ''Validating source dotfiles components.''),
      SpinnerUpdate (Msg ''Validating source dotfiles components...''),
      Sleep 2,
      LoggerInfo (MsgPath ''Copying dotfiles to {USER_DOTFILES_DIR}'' (USER_DOTFILES_DIR D)),
      SpinnerUpdate (Msg ''Copying dotfiles...''),
      Sleep 2,
      LoggerInfo (Msg ''Checking if copied successfully or not.''),
      LoggerInfo (Msg ''Removing existing configs.''),
      SpinnerUpdate (Msg ''Removing existing configs...''),
      Sleep 2,
      LoggerInfo (Msg ''Creating system links.''),
      SpinnerUpdate (Msg ''Linking new dotfiles...''),
      Sleep 2,
      Sleep 1,
      SpinnerSuccess (Msg ''Dotfiles installed successfully!''),
      SpinnerExit,
      SpinnerEnter ''Installing third-party dots...'',
      LoggerInfo (Msg ''Installing TPM (Tmux Plugin Manager)''),
      SpinnerUpdate (Msg ''Installing TPM for tmux...''),
      Sleep 2,
      LoggerInfo (Msg ''Installing LazyVim''),
      SpinnerUpdate (Msg ''Installing LazyVim...''),
      Sleep 2,
      SpinnerExit,
      PrintLine]"

text \<open>What \<open>install\<close> reports before step 1 and between step 5 and the bootstrap
  steps.\<close>

definition install_started :: "event list" where
  "install_started =
     [LogHeading ''Dotfiles installer started'',
      PrintHeader ''Installing dotfiles.'',
      SpinnerEnter ''Installing dotfiles...'']"

definition dotfiles_installed :: "event list" where
  "dotfiles_installed =
     [Sleep 1, SpinnerSuccess (Msg ''Dotfiles installed successfully!''),
      SpinnerExit, SpinnerEnter ''Installing third-party dots...'']"

text \<open>What the two bootstrap steps report first.\<close>

definition tpm_started :: "event list" where
  "tpm_started = [LoggerInfo (Msg ''Installing TPM (Tmux Plugin Manager)''),
                  SpinnerUpdate (Msg ''Installing TPM for tmux...'')]"

definition lazyvim_started :: "event list" where
  "lazyvim_started = [LoggerInfo (Msg ''Installing LazyVim''),
                      SpinnerUpdate (Msg ''Installing LazyVim...'')]"

text \<open>A child process started with \<open>argv\<close> changes nothing outside the tree below
  \<open>root\<close>.\<close>

definition writes_below :: "world \<Rightarrow> string list \<Rightarrow> path \<Rightarrow> bool" where
  "writes_below W argv root =
     (\<forall>f rc f' k. subprocess_run W argv f = Completed rc f' \<and> \<not> prefix root k
        \<longrightarrow> lookup f' k = lookup f k)"

definition plugins_dir :: "dirs \<Rightarrow> path" where
  "plugins_dir D = joinpath (joinpath (USER_DOTFILES_DIR D) ''tmux'') ''plugins''"

text \<open>A broken symbolic link: the path holds a link, and following it finds nothing.\<close>

definition broken_link :: "filesys \<Rightarrow> path \<Rightarrow> bool" where
  "broken_link f p =
     (case lookup f p of
        Some (Link t) \<Rightarrow> \<not> path_exists f p
      | _ \<Rightarrow> False)"

text \<open>Two directories neither of which lies inside the other, and a tree that is a
  byte-for-byte copy of another: every relative path holds the same node in both.\<close>

definition unrelated :: "path \<Rightarrow> path \<Rightarrow> bool" where
  "unrelated a b = (\<not> prefix a b \<and> \<not> prefix b a)"

definition byte_for_byte_copy :: "filesys \<Rightarrow> path \<Rightarrow> filesys \<Rightarrow> path \<Rightarrow> bool" where
  "byte_for_byte_copy g dst f src = (\<forall>rel. lookup g (dst @ rel) = lookup f (src @ rel))"

section \<open>Example runs\<close>

definition demo_dirs :: dirs where
  "demo_dirs = \<lparr>HYPRDOTS_DOTFILES_DIR = [''repo'', ''dotfiles''],
                 USER_DOTFILES_DIR = [''home'', ''dots''],
                 USER_CONFIGS_DIR = [''home'', ''config'']\<rparr>"

definition rofi_busy :: world where
  "rofi_busy =
     \<lparr>remove_fault = (\<lambda>p fs. if p = [''home'', ''config'', ''rofi''] then Some (\<lambda>q. False) else None),
      copy_fault = (\<lambda>src dst fs. None),
      symlink_fault = (\<lambda>src tgt fs. False),
      rename_fault = (\<lambda>src dst fs. None),
      subprocess_run = (\<lambda>argv fs. Failed FileNotFoundError)\<rparr>"

definition old_configs :: filesys where
  "old_configs =
     [([''home'', ''config''], Dir),
      ([''home'', ''config'', ''hypr''], Dir),
      ([''home'', ''config'', ''hypr'', ''hyprland.conf''], File ''old''),
      ([''home'', ''config'', ''rofi''], File ''busy''),
      ([''home'', ''config'', ''fish''], Dir)]"


definition rofi_busy_result :: state where
  "rofi_busy_result =
     \<lparr>fs = [([''home'', ''config''], Dir),
            ([''home'', ''config'', ''rofi''], File ''busy''),
            ([''home'', ''config'', ''fish''], Dir)],
      trace = [LoggerInfo (Msg ''Removing existing configs.''),
               SpinnerUpdate (Msg ''Removing existing configs...''),
               Call (Remove [''home'', ''config'', ''hypr'']),
               Call (Remove [''home'', ''config'', ''waybar'']),
               Call (Remove [''home'', ''config'', ''rofi'']),
               SpinnerError (MsgPath ''Failed to remove existing config: {file}.''
                               [''home'', ''config'', ''rofi''])]\<rparr>"

definition disk_full :: world where
  "disk_full =
     \<lparr>remove_fault = (\<lambda>p fs. None),
      copy_fault = (\<lambda>src dst fs. Some (OSError ''No space left on device'', (\<lambda>q. False))),
      symlink_fault = (\<lambda>src tgt fs. False),
      rename_fault = (\<lambda>src dst fs. None),
      subprocess_run = (\<lambda>argv fs. Failed FileNotFoundError)\<rparr>"

definition repo_tree :: filesys where
  "repo_tree =
     ([''repo'', ''dotfiles''], Dir)
     # map (\<lambda>c. ([''repo'', ''dotfiles'', c],
                   if c = ''starship.toml'' then File ''add_newline = false'' else Dir))
         components
     @ [([''repo'', ''dotfiles'', ''hypr'', ''hyprland.conf''], File ''monitor=,preferred,auto,1''),
        ([''repo'', ''dotfiles'', ''tmux'', ''tmux.conf''], File ''set -g mouse on''),
        ([''repo'', ''dotfiles'', ''tmux'', ''plugins''], Dir)]"

definition kitty_missing :: filesys where
  "kitty_missing = filter (\<lambda>(q, n). q \<noteq> [''repo'', ''dotfiles'', ''kitty'']) repo_tree"

definition busy_start :: state where
  "busy_start = \<lparr>fs = repo_tree @ old_configs, trace = []\<rparr>"

definition busy_s1 :: state where
  "busy_s1 = snd (validate_sources (init demo_dirs False) (emits install_started busy_start))"

definition busy_s2 :: state where
  "busy_s2 = snd (copy_dotfiles demo_dirs disk_full (init demo_dirs False) busy_s1)"

definition clone_refused :: world where
  "clone_refused =
     \<lparr>remove_fault = (\<lambda>p fs. None),
      copy_fault = (\<lambda>src dst fs. None),
      symlink_fault = (\<lambda>src tgt fs. False),
      rename_fault = (\<lambda>src dst fs. None),
      subprocess_run = (\<lambda>argv fs. Completed 128 fs)\<rparr>"

definition nothing :: state where
  "nothing = \<lparr>fs = [], trace = []\<rparr>"

definition no_nvim :: state where
  "no_nvim = snd (lazyvim_backup demo_dirs clone_refused
          (lazyvim_remove_existing demo_dirs clone_refused (emits lazyvim_started nothing)))"

definition stale_backup :: filesys where
  "stale_backup =
     [([''home'', ''config''], Dir),
      ([''home'', ''config'', ''nvim''], Dir),
      ([''home'', ''config'', ''nvim'', ''init.lua''], File ''vim.opt.number = true''),
      ([''home'', ''config'', ''nvim.backup''], Link [''home'', ''old-nvim''])]"

definition clones_ok :: world where
  "clones_ok =
     \<lparr>remove_fault = (\<lambda>p fs. None),
      copy_fault = (\<lambda>src dst fs. None),
      symlink_fault = (\<lambda>src tgt fs. False),
      rename_fault = (\<lambda>src dst fs. None),
      subprocess_run = (\<lambda>argv f.
         if argv = tpm_argv demo_dirs
         then Completed 0
                ([(tpm_dir demo_dirs, Dir),
                  (joinpath (tpm_dir demo_dirs) ''tpm'', File ''#!/usr/bin/env bash'')] @ f)
         else if argv = lazyvim_argv demo_dirs
         then Completed 0
                ([(lazyvim_dir demo_dirs, Dir),
                  (joinpath (lazyvim_dir demo_dirs) ''.git'', Dir),
                  (joinpath (lazyvim_dir demo_dirs) ''init.lua'', File ''require config.lazy'')]
                 @ f)
         else Failed FileNotFoundError)\<rparr>"

definition full_start :: state where
  "full_start =
     \<lparr>fs = repo_tree
             @ [([''home'', ''config''], Dir),
                ([''home'', ''config'', ''hypr''], Dir),
                ([''home'', ''config'', ''hypr'', ''hyprland.conf''], File ''old''),
                ([''home'', ''config'', ''nvim''], Link [''home'', ''old-nvim'']),
                ([''home'', ''dots''], Dir),
                ([''home'', ''dots'', ''hypr''], Dir),
                ([''home'', ''dots'', ''hypr'', ''stale.conf''], File ''stale'')],
      trace = []\<rparr>"

definition full_s1 :: state where
  "full_s1 = snd (validate_sources (init demo_dirs False) (emits install_started full_start))"

definition full_s2 :: state where
  "full_s2 = snd (copy_dotfiles demo_dirs clones_ok (init demo_dirs False) full_s1)"

definition full_s3 :: state where
  "full_s3 = snd (verify_copy (init demo_dirs False) full_s2)"

definition full_s4 :: state where
  "full_s4 = snd (remove_existing_configs demo_dirs clones_ok (init demo_dirs False) full_s3)"

definition full_s5 :: state where
  "full_s5 = snd (create_links demo_dirs clones_ok (init demo_dirs False) full_s4)"

definition full_s6 :: state where
  "full_s6 = snd (install_tpm demo_dirs clones_ok (init demo_dirs False)
                    (emits dotfiles_installed full_s5))"

definition full_s7 :: state where
  "full_s7 = snd (install_lazyvim demo_dirs clones_ok (init demo_dirs False) full_s6)"

definition stage_busy :: world where
  "stage_busy =
     \<lparr>remove_fault = (\<lambda>p fs. if p = [''home'', ''dots''] then Some (\<lambda>q. False) else None),
      copy_fault = (\<lambda>src dst fs. None),
      symlink_fault = (\<lambda>src tgt fs. False),
      rename_fault = (\<lambda>src dst fs. None),
      subprocess_run = (\<lambda>argv fs. Failed FileNotFoundError)\<rparr>"

definition stale_stage :: state where
  "stale_stage =
     \<lparr>fs = repo_tree
             @ [([''home'', ''dots''], Dir),
                ([''home'', ''dots'', ''hypr''], Dir),
                ([''home'', ''dots'', ''hypr'', ''stale.conf''], File ''stale'')],
      trace = []\<rparr>"

definition nested_dirs :: dirs where
  "nested_dirs = \<lparr>HYPRDOTS_DOTFILES_DIR = [''repo'', ''dotfiles''],
                   USER_DOTFILES_DIR = [''home'', ''config'', ''hyprdots''],
                   USER_CONFIGS_DIR = [''home'', ''config'']\<rparr>"

section \<open>Basic facts\<close>

lemma fs_emits [simp]: "fs (emits es s) = fs s"
  by (simp add: emits_def)

lemma trace_emits [simp]: "trace (emits es s) = trace s @ es"
  by (simp add: emits_def)

lemma call_remove_trace:
  "call_remove W p s = (ok, s') \<Longrightarrow> trace s' = trace s @ [Call (Remove p)]"
  by (auto simp: call_remove_def split: prod.splits)

lemma remove_loop_ok:
  "remove_existing_configs_loop D W cs s = (True, s') \<Longrightarrow>
   trace s' = trace s @ map (\<lambda>c. Call (Remove (joinpath (USER_CONFIGS_DIR D) c))) cs"
proof (induction cs arbitrary: s)
  case Nil
  then show ?case by simp
next
  case (Cons c cs)
  obtain ok s1 where r: "call_remove W (joinpath (USER_CONFIGS_DIR D) c) s = (ok, s1)"
    by (cases "call_remove W (joinpath (USER_CONFIGS_DIR D) c) s")
  with Cons.prems have ok and rest: "remove_existing_configs_loop D W cs s1 = (True, s')"
    by (auto split: if_splits)
  from Cons.IH[OF rest] call_remove_trace[OF r] show ?case by simp
qed

lemma remove_loop_fail:
  "remove_existing_configs_loop D W cs s = (False, s') \<Longrightarrow>
   \<exists>done c rest sm sf.
     cs = done @ c # rest \<and>
     remove_existing_configs_loop D W done s = (True, sm) \<and>
     call_remove W (joinpath (USER_CONFIGS_DIR D) c) sm = (False, sf) \<and>
     s' = emits [SpinnerError (MsgPath ''Failed to remove existing config: {file}.''
                   (joinpath (USER_CONFIGS_DIR D) c))] sf"
proof (induction cs arbitrary: s)
  case Nil
  then show ?case by simp
next
  case (Cons c cs)
  obtain ok s1 where r: "call_remove W (joinpath (USER_CONFIGS_DIR D) c) s = (ok, s1)"
    by (cases "call_remove W (joinpath (USER_CONFIGS_DIR D) c) s")
  show ?case
  proof (cases ok)
    case False
    with Cons.prems r have "s' = emits [SpinnerError (MsgPath ''Failed to remove existing config: {file}.''
                   (joinpath (USER_CONFIGS_DIR D) c))] s1" by auto
    with r False show ?thesis
      by (intro exI[of _ "[]"] exI[of _ c] exI[of _ cs] exI[of _ s] exI[of _ s1]) simp
  next
    case True
    with Cons.prems r have "remove_existing_configs_loop D W cs s1 = (False, s')" by auto
    from Cons.IH[OF this] obtain dn c' rest sm sf where
      h: "cs = dn @ c' # rest" "remove_existing_configs_loop D W dn s1 = (True, sm)"
         "call_remove W (joinpath (USER_CONFIGS_DIR D) c') sm = (False, sf)"
         "s' = emits [SpinnerError (MsgPath ''Failed to remove existing config: {file}.''
                   (joinpath (USER_CONFIGS_DIR D) c'))] sf" by blast
    from h r True show ?thesis
      by (intro exI[of _ "c # dn"] exI[of _ c'] exI[of _ rest] exI[of _ sm] exI[of _ sf]) simp
  qed
qed


lemma calls_of_append [simp]: "calls_of (a @ b) = calls_of a @ calls_of b"
  by (simp add: calls_of_def)

lemma logged_errors_append [simp]: "logged_errors (a @ b) = logged_errors a @ logged_errors b"
  by (simp add: logged_errors_def)

lemma calls_of_Cons [simp]:
  "calls_of (e # es) = (case e of Call c \<Rightarrow> [c] | _ \<Rightarrow> []) @ calls_of es"
  by (simp add: calls_of_def)

lemma logged_errors_Cons [simp]:
  "logged_errors (e # es) = (case e of LoggerError m \<Rightarrow> [m] | _ \<Rightarrow> []) @ logged_errors es"
  by (simp add: logged_errors_def)

lemma calls_of_Nil [simp]: "calls_of [] = []"
  by (simp add: calls_of_def)

lemma logged_errors_Nil [simp]: "logged_errors [] = []"
  by (simp add: logged_errors_def)

lemma new_events_append [simp]: "trace s' = trace s @ es \<Longrightarrow> new_events s s' = es"
  by (simp add: new_events_def)

lemma verify_copy_loop_eq:
  "verify_copy_loop ps acc s =
     (acc @ filter (\<lambda>p. \<not> path_lexists (fs s) p) ps,
      emits (concat (map (\<lambda>p. Call (PathLexists p) #
                (if path_lexists (fs s) p then []
                 else [LoggerError (MsgPath ''Copied dotfile component {i} is missing.'' p)])) ps)) s)"
proof (induction ps arbitrary: acc s)
  case Nil
  show ?case by (simp add: emits_def)
next
  case (Cons p ps)
  show ?case
    by (simp add: Cons.IH call_path_lexists_def emits_def)
qed

lemma joinpath_inj [simp]: "(joinpath p a = joinpath p b) = (a = b)"
  by (simp add: joinpath_def)

lemma call_create_symlink_trace:
  "call_create_symlink W a b s = (ok, s') \<Longrightarrow> trace s' = trace s @ [Call (CreateSymlink a b)]"
  by (auto simp: call_create_symlink_def split: prod.splits)

lemma call_create_symlink_fs:
  "call_create_symlink W a b s = (ok, s') \<Longrightarrow>
     (ok \<longrightarrow> lookup (fs s') b = Some (Link a))
   \<and> (\<not> ok \<longrightarrow> fs s' = fs s \<and> lookup (fs s) b \<noteq> Some (Link a))
   \<and> (\<forall>q. q \<noteq> b \<longrightarrow> lookup (fs s') q = lookup (fs s) q)"
  by (auto simp: call_create_symlink_def create_symlink_def lookup_def split: prod.splits if_splits)

lemma create_links_loop_char:
  "create_links_loop D W cs acc s = (acc', s') \<Longrightarrow> distinct cs \<Longrightarrow>
     acc' = acc @ filter (\<lambda>st. \<not> linked (fs s') st) (map (link_pair D) cs)
   \<and> calls_of (new_events s s')
       = map (\<lambda>c. CreateSymlink (joinpath (USER_DOTFILES_DIR D) c) (joinpath (USER_CONFIGS_DIR D) c)) cs
   \<and> logged_errors (new_events s s')
       = map (\<lambda>st. MsgPaths ''Failed to link {source} to {target}.'' (fst st) (snd st))
           (filter (\<lambda>st. \<not> linked (fs s') st) (map (link_pair D) cs))
   \<and> (\<exists>es. trace s' = trace s @ es)
   \<and> (\<forall>q. q \<notin> joinpath (USER_CONFIGS_DIR D) ` set cs \<longrightarrow> lookup (fs s') q = lookup (fs s) q)"
proof (induction cs arbitrary: acc s)
  case Nil
  then show ?case by (simp add: new_events_def)
next
  case (Cons c cs)
  let ?a = "joinpath (USER_DOTFILES_DIR D) c" and ?b = "joinpath (USER_CONFIGS_DIR D) c"
  obtain ok s1 where r: "call_create_symlink W ?a ?b s = (ok, s1)"
    by (cases "call_create_symlink W ?a ?b s")
  note t1 = call_create_symlink_trace[OF r]
  note f1 = call_create_symlink_fs[OF r]
  from Cons.prems have d: "distinct cs" and nin: "c \<notin> set cs" by auto
  hence bnin: "?b \<notin> joinpath (USER_CONFIGS_DIR D) ` set cs" by auto
  show ?case
  proof (cases ok)
    case True
    with Cons.prems(1) r have rest: "create_links_loop D W cs acc s1 = (acc', s')" by (simp add: Let_def)
    note ih = Cons.IH[OF rest d]
    from ih obtain es where es: "trace s' = trace s1 @ es" by blast
    from ih bnin f1 True have lk: "linked (fs s') (link_pair D c)"
      by (simp add: linked_def link_pair_def)
    have ne: "new_events s s' = Call (CreateSymlink ?a ?b) # new_events s1 s'"
      using es t1 by (simp add: new_events_def)
    from ih lk ne es t1 f1 show ?thesis by auto
  next
    case False
    let ?s2 = "emits [LoggerError (MsgPaths ''Failed to link {source} to {target}.'' ?a ?b)] s1"
    from False Cons.prems(1) r
    have rest: "create_links_loop D W cs (acc @ [(?a, ?b)]) ?s2 = (acc', s')" by (simp add: Let_def)
    note ih = Cons.IH[OF rest d]
    from ih obtain es where es: "trace s' = trace ?s2 @ es" by blast
    from ih bnin f1 False have lk: "\<not> linked (fs s') (link_pair D c)"
      by (simp add: linked_def link_pair_def)
    have ne: "new_events s s' = Call (CreateSymlink ?a ?b)
                # LoggerError (MsgPaths ''Failed to link {source} to {target}.'' ?a ?b)
                # new_events ?s2 s'"
      using es t1 by (simp add: new_events_def)
    from ih lk ne es t1 f1 show ?thesis by (auto simp: link_pair_def)
  qed
qed


lemma distinct_components: "distinct components"
  by (simp add: components_def)

lemma emits_emits [simp]: "emits b (emits a s) = emits (a @ b) s"
  by (simp add: emits_def)

lemma validate_sources_loop_eq:
  "validate_sources_loop ps s =
     (case filter (\<lambda>p. \<not> path_lexists (fs s) p) ps of
        [] \<Rightarrow> (True, emits (map (\<lambda>p. Call (PathLexists p)) ps) s)
      | p # rest \<Rightarrow>
          (False, emits (map (\<lambda>p. Call (PathLexists p)) (takeWhile (path_lexists (fs s)) ps)
                         @ [Call (PathLexists p),
                            LoggerError (MsgPath ''Missing source: {i}.'' p),
                            SpinnerError (MsgPath ''Missing source: {i}, exiting...'' p)]) s))"
proof (induction ps arbitrary: s)
  case Nil
  show ?case by (simp add: emits_def)
next
  case (Cons q ps)
  show ?case
    by (simp add: Cons.IH call_path_lexists_def split: list.splits)
qed


lemma takeWhile_first_failure:
  "filter (\<lambda>x. \<not> P x) xs = p # rest \<Longrightarrow>
   takeWhile P xs @ [p] = take (Suc (length (takeWhile P xs))) xs"
  by (induction xs) (auto split: if_splits)

lemma calls_of_map_Call [simp]: "calls_of (map (\<lambda>p. Call (f p)) qs) = map f qs"
  by (induction qs) auto

lemma validate_sources_calls:
  "\<exists>k. calls_of (new_events s (snd (validate_sources (init D False) s)))
        = map (\<lambda>c. PathLexists (joinpath (HYPRDOTS_DOTFILES_DIR D) c)) (take k components)"
proof -
  let ?ps = "map (joinpath (HYPRDOTS_DOTFILES_DIR D)) components"
  let ?s1 = "emits [LoggerInfo (Msg ''Validating source dotfiles components.''),
                    SpinnerUpdate (Msg ''Validating source dotfiles components...'')] s"
  have v: "validate_sources (init D False) s = validate_sources_loop ?ps ?s1"
    by (simp add: validate_sources_def init_def)
  show ?thesis
  proof (cases "filter (\<lambda>p. \<not> path_lexists (fs s) p) ?ps")
    case Nil
    hence "calls_of (new_events s (snd (validate_sources (init D False) s)))
            = map PathLexists ?ps"
      unfolding v validate_sources_loop_eq by (simp del: map_map)
    hence "calls_of (new_events s (snd (validate_sources (init D False) s)))
        = map (\<lambda>c. PathLexists (joinpath (HYPRDOTS_DOTFILES_DIR D) c))
            (take (length components) components)"
      by (simp add: comp_def)
    thus ?thesis by blast
  next
    case (Cons p rest)
    let ?k = "Suc (length (takeWhile (path_lexists (fs s)) ?ps))"
    have "calls_of (new_events s (snd (validate_sources (init D False) s)))
            = map PathLexists (takeWhile (path_lexists (fs s)) ?ps @ [p])"
      unfolding v validate_sources_loop_eq using Cons by (simp del: map_map)
    also have "\<dots> = map PathLexists (take ?k ?ps)"
      using takeWhile_first_failure[OF Cons] by simp
    also have "\<dots> = map (\<lambda>c. PathLexists (joinpath (HYPRDOTS_DOTFILES_DIR D) c))
                        (take ?k components)"
      by (simp add: take_map comp_def)
    finally show ?thesis by blast
  qed
qed

lemma remove_existing_configs_calls:
  "\<exists>k. calls_of (new_events s (snd (remove_existing_configs D W (init D False) s)))
        = map (\<lambda>c. Remove (joinpath (USER_CONFIGS_DIR D) c)) (take k components)"
proof -
  let ?s1 = "emits [LoggerInfo (Msg ''Removing existing configs.''),
                    SpinnerUpdate (Msg ''Removing existing configs...'')] s"
  obtain r s' where l: "remove_existing_configs_loop D W components ?s1 = (r, s')"
    by (cases "remove_existing_configs_loop D W components ?s1")
  hence v: "remove_existing_configs D W (init D False) s = (r, s')"
    by (simp add: remove_existing_configs_def init_def)
  show ?thesis
  proof (cases r)
    case True
    with l have l': "remove_existing_configs_loop D W components ?s1 = (True, s')" by simp
    have "trace s' = trace ?s1
        @ map (\<lambda>c. Call (Remove (joinpath (USER_CONFIGS_DIR D) c))) components"
      by (rule remove_loop_ok[OF l'])
    hence "calls_of (new_events s s')
        = map (\<lambda>c. Remove (joinpath (USER_CONFIGS_DIR D) c)) (take (length components) components)"
      by (simp add: new_events_def)
    thus ?thesis unfolding v by (simp only: snd_conv) blast
  next
    case False
    with l have "remove_existing_configs_loop D W components ?s1 = (False, s')" by simp
    from remove_loop_fail[OF this] obtain dn c rest sm sf where
      h: "components = dn @ c # rest"
         "remove_existing_configs_loop D W dn ?s1 = (True, sm)"
         "call_remove W (joinpath (USER_CONFIGS_DIR D) c) sm = (False, sf)"
         "s' = emits [SpinnerError (MsgPath ''Failed to remove existing config: {file}.''
                   (joinpath (USER_CONFIGS_DIR D) c))] sf" by blast
    have t: "trace s' = trace s @ [LoggerInfo (Msg ''Removing existing configs.''),
                    SpinnerUpdate (Msg ''Removing existing configs...'')]
               @ map (\<lambda>c. Call (Remove (joinpath (USER_CONFIGS_DIR D) c))) (dn @ [c])
               @ [SpinnerError (MsgPath ''Failed to remove existing config: {file}.''
                   (joinpath (USER_CONFIGS_DIR D) c))]"
      using remove_loop_ok[OF h(2)] call_remove_trace[OF h(3)] h(4) by simp
    have "dn @ [c] = take (Suc (length dn)) components"
      unfolding h(1) by simp
    hence "calls_of (new_events s s')
        = map (\<lambda>c. Remove (joinpath (USER_CONFIGS_DIR D) c)) (take (Suc (length dn)) components)"
      using new_events_append[OF t] by simp
    thus ?thesis unfolding v by (simp only: snd_conv) blast
  qed
qed


lemma verify_copy_calls:
  "calls_of (new_events s (snd (verify_copy (init D False) s)))
     = map (\<lambda>c. PathLexists (joinpath (USER_DOTFILES_DIR D) c)) components"
proof -
  let ?ps = "map (joinpath (USER_DOTFILES_DIR D)) components"
  let ?ev = "\<lambda>p. Call (PathLexists p) #
                (if path_lexists (fs s) p then []
                 else [LoggerError (MsgPath ''Copied dotfile component {i} is missing.'' p)])"
  have c: "calls_of (concat (map ?ev qs)) = map PathLexists qs" for qs
    by (induction qs) auto
  have v: "verify_copy (init D False) s =
     (missing_components D (fs s) = [],
      emits ([LoggerInfo (Msg ''Checking if copied successfully or not.'')]
             @ concat (map ?ev ?ps)
             @ (if missing_components D (fs s) \<noteq> []
                then [SpinnerError (Msg ''Some dotfile components are missing, exiting...'')]
                else [])) s)"
    by (simp add: verify_copy_def init_def verify_copy_loop_eq missing_components_def emits_def)
  have "calls_of (new_events s (snd (verify_copy (init D False) s))) = map PathLexists ?ps"
    unfolding v by (simp add: c del: map_map)
  thus ?thesis by (simp add: comp_def)
qed

lemma create_links_calls:
  "calls_of (new_events s (snd (create_links D W (init D False) s)))
     = map (\<lambda>c. CreateSymlink (joinpath (USER_DOTFILES_DIR D) c)
                               (joinpath (USER_CONFIGS_DIR D) c)) components"
proof -
  let ?s1 = "emits [LoggerInfo (Msg ''Creating system links.''),
                    SpinnerUpdate (Msg ''Linking new dotfiles...'')] s"
  obtain failed s2 where l: "create_links_loop D W components [] ?s1 = (failed, s2)"
    by (cases "create_links_loop D W components [] ?s1")
  note ch = create_links_loop_char[OF l distinct_components]
  from ch obtain es where es: "trace s2 = trace ?s1 @ es" by blast
  hence ne: "new_events ?s1 s2 = es" by simp
  let ?fin = "if failed \<noteq> []
              then [SpinnerError (Msg ''Failed to create some links, exiting...'')] else []"
  have c: "create_links D W (init D False) s = (failed = [], emits ?fin s2)"
    using l by (simp add: create_links_def init_def emits_def)
  have tr: "trace (emits ?fin s2) = trace s
              @ ([LoggerInfo (Msg ''Creating system links.''),
                  SpinnerUpdate (Msg ''Linking new dotfiles...'')] @ es @ ?fin)"
    using es by simp
  show ?thesis
    unfolding c snd_conv new_events_append[OF tr]
    using ch ne by (simp del: map_map)
qed

lemma run_command_faults:
  "(subprocess_run W argv f = Completed rc f' \<and> rc \<noteq> 0
      \<longrightarrow> run_command W argv f = (Some (CalledProcessError rc), f'))
   \<and> (subprocess_run W argv f = Failed e \<longrightarrow> run_command W argv f = (Some e, f))
   \<and> (subprocess_run W argv f = Completed 0 f' \<longrightarrow> run_command W argv f = (None, f'))"
  by (simp add: run_command_def)

lemma install_tpm_caught:
  assumes "\<not> dry_run self"
    and "run_command W (tpm_argv D) (fs (tpm_remove_existing D W (emits tpm_started s))) = (Some e, f)"
  shows "install_tpm D W self s
          = (False,
             emits [Call (RunCommand (tpm_argv D)),
                    LoggerError (MsgExn ''Failed to install TPM: {e}'' e),
                    SpinnerError (Msg ''Failed to install TPM for tmux'')]
               ((tpm_remove_existing D W (emits tpm_started s))\<lparr>fs := f\<rparr>))"
  using assms
  by (simp add: install_tpm_def call_run_command_def tpm_started_def emits_def Let_def)

lemma install_lazyvim_caught:
  assumes "\<not> dry_run self"
    and "lazyvim_backup D W (lazyvim_remove_existing D W (emits lazyvim_started s)) = (None, s2)"
    and "run_command W (lazyvim_argv D) (fs s2) = (Some e, f)"
  shows "install_lazyvim D W self s
          = (Returned False,
             emits [Call (RunCommand (lazyvim_argv D)),
                    LoggerError (MsgExn ''Failed to install LazyVim: {e}'' e),
                    SpinnerError (Msg ''Failed to install LazyVim'')]
               (s2\<lparr>fs := f\<rparr>))"
  using assms
  by (simp add: install_lazyvim_def lazyvim_clone_def call_run_command_def lazyvim_started_def
        emits_def Let_def)

lemma lazyvim_backup_raises:
  "lazyvim_backup D W s = (Some e, s') \<Longrightarrow>
   \<exists>f. rename W (nvim_config_dir D) (backup_dir D) f = Inl e"
  by (auto simp: lazyvim_backup_def call_rename_def Let_def
           split: prod.splits if_splits option.splits sum.splits)

lemma install_lazyvim_raises:
  "install_lazyvim D W self s = (Raised e, s') \<Longrightarrow>
   \<exists>f. rename W (nvim_config_dir D) (backup_dir D) f = Inl e"
  by (auto simp: install_lazyvim_def Let_def dest: lazyvim_backup_raises
           split: prod.splits if_splits option.splits)

lemma install_chain:
  assumes "validate_sources self (emits install_started s) = (r1, s1)"
    and "copy_dotfiles D W self s1 = (r2, s2)"
    and "verify_copy self s2 = (r3, s3)"
    and "remove_existing_configs D W self s3 = (r4, s4)"
    and "create_links D W self s4 = (r5, s5)"
    and "install_tpm D W self (emits dotfiles_installed s5) = (r6, s6)"
    and "install_lazyvim D W self s6 = (r7, s7)"
  shows "install D W self s =
     (if \<not> r1 then (Returned False, emits [SpinnerExit] s1)
      else if \<not> r2 then (Returned False, emits [SpinnerExit] s2)
      else if \<not> r3 then (Returned False, emits [SpinnerExit] s3)
      else if \<not> r4 then (Returned False, emits [SpinnerExit] s4)
      else if \<not> r5 then (Returned False, emits [SpinnerExit] s5)
      else if \<not> r6 then (Returned False, emits [SpinnerExit] s6)
      else case r7 of
             Raised e \<Rightarrow> (Raised e, emits [SpinnerExit] s7)
           | Returned b \<Rightarrow>
               if \<not> b then (Returned False, emits [SpinnerExit] s7)
               else (Returned True, emits [SpinnerExit, PrintLine] s7))"
proof -
  have i: "emits [LogHeading ''Dotfiles installer started'',
                  PrintHeader ''Installing dotfiles.'',
                  SpinnerEnter ''Installing dotfiles...''] s = emits install_started s"
    by (simp add: install_started_def)
  have m: "emits [Sleep 1, SpinnerSuccess (Msg ''Dotfiles installed successfully!''),
                  SpinnerExit, SpinnerEnter ''Installing third-party dots...''] s5
           = emits dotfiles_installed s5"
    by (simp add: dotfiles_installed_def)
  show ?thesis
    unfolding install_def i Let_def assms prod.case m
    by (simp split: outcome.splits)
qed

lemma install_raises:
  assumes "install D W self s = (Raised e, s')"
  shows "\<exists>f. rename W (nvim_config_dir D) (backup_dir D) f = Inl e"
proof -
  note sp = surjective_pairing
  note c = install_chain[OF sp sp sp sp sp sp sp, where self = self and s = s and D = D and W = W]
  from assms[unfolded c]
  obtain s6 s7 where "install_lazyvim D W self s6 = (Raised e, s7)"
    by (auto split: if_splits outcome.splits simp: prod_eq_iff)
  thus ?thesis by (rule install_lazyvim_raises)
qed


subsection \<open>What each call leaves alone\<close>

lemma lookup_filter:
  "lookup (filter (\<lambda>(q, n). P q) f) k = (if P k then lookup f k else None)"
  by (induction f) (auto simp: lookup_def)

lemma lookup_append:
  "lookup (a @ b) k = (case lookup a k of None \<Rightarrow> lookup b k | Some v \<Rightarrow> Some v)"
  by (simp add: lookup_def map_add_def split: option.splits)

lemma lookup_Cons:
  "lookup ((q, n) # f) k = (if k = q then Some n else lookup f k)"
  by (simp add: lookup_def)

lemma lookup_subtree_outside:
  "\<not> prefix dst k \<Longrightarrow> lookup (subtree src dst f) k = None"
  by (induction f) (auto simp: lookup_def subtree_def rebase_def)

lemma lookup_subtree_inside:
  "lookup (subtree src dst f) (dst @ rel) = lookup f (src @ rel)"
proof (induction f)
  case Nil
  show ?case by (simp add: lookup_def subtree_def)
next
  case (Cons e f)
  obtain q n where e: "e = (q, n)" by (cases e)
  show ?case
  proof (cases "prefix src q")
    case True
    then obtain r where q: "q = src @ r" by (auto simp: prefix_def)
    with Cons e show ?thesis
      by (auto simp: lookup_def subtree_def rebase_def)
  next
    case False
    hence "q \<noteq> src @ rel" by auto
    with False Cons e show ?thesis
      by (auto simp: lookup_def subtree_def rebase_def)
  qed
qed

lemma remove_frame:
  "remove W p f = (ok, f') \<Longrightarrow> \<not> prefix p k \<Longrightarrow> lookup f' k = lookup f k"
  by (auto simp: remove_def lookup_filter split: if_splits option.splits)

lemma remove_gone:
  "remove W p f = (True, f') \<Longrightarrow> lookup f' p = None"
  by (auto simp: remove_def lookup_filter path_lexists_def split: if_splits option.splits)

lemma copy_frame:
  "copy W src dst f = (r, f') \<Longrightarrow> \<not> prefix dst k \<Longrightarrow> lookup f' k = lookup f k"
  by (auto simp: copy_def lookup_append lookup_subtree_outside lookup_filter
           split: option.splits prod.splits)

lemma copy_done:
  "copy W src dst f = (None, f') \<Longrightarrow>
   lookup f' (dst @ rel)
     = (case lookup f (src @ rel) of None \<Rightarrow> lookup f (dst @ rel) | Some v \<Rightarrow> Some v)"
  by (auto simp: copy_def lookup_append lookup_subtree_inside
           split: option.splits prod.splits)

lemma resolve_lookup: "resolve k f p \<noteq> None \<Longrightarrow> lookup f p \<noteq> None"
  by (cases k) (auto split: option.splits node.splits)

lemma path_exists_lexists: "path_exists f p \<Longrightarrow> path_lexists f p"
  using resolve_lookup by (auto simp: path_exists_def path_lexists_def)

lemma remove_clean:
  "path_lexists f p \<Longrightarrow> remove_fault W p f = None \<Longrightarrow>
   lookup (snd (remove W p f)) (p @ rel) = None"
  by (simp add: remove_def lookup_filter)

lemma rename_frame:
  "rename W a b f = Inr f' \<Longrightarrow> \<not> prefix a k \<Longrightarrow> \<not> prefix b k \<Longrightarrow>
   lookup f' k = lookup f k"
  by (auto simp: rename_def move_tree_def lookup_append lookup_subtree_outside lookup_filter
           split: option.splits node.splits if_splits)

lemma call_remove_frame:
  "\<not> prefix p k \<Longrightarrow> lookup (fs (snd (call_remove W p s))) k = lookup (fs s) k"
  by (cases "remove W p (fs s)") (auto simp: call_remove_def dest: remove_frame)

lemma call_exists_fs [simp]: "fs (snd (call_exists p s)) = fs s"
  by (simp add: call_exists_def)

lemma call_rename_frame:
  "\<not> prefix a k \<Longrightarrow> \<not> prefix b k \<Longrightarrow>
   lookup (fs (snd (call_rename W a b s))) k = lookup (fs s) k"
  by (cases "rename W a b (fs s)") (auto simp: call_rename_def dest: rename_frame)

lemma call_copy_frame:
  "\<not> prefix dst k \<Longrightarrow> lookup (fs (snd (call_copy W src dst s))) k = lookup (fs s) k"
  by (cases "copy W src dst (fs s)") (auto simp: call_copy_def dest: copy_frame)


lemma validate_sources_fs [simp]: "fs (snd (validate_sources self s)) = fs s"
  by (simp add: validate_sources_def validate_sources_loop_eq Let_def split: list.splits)

lemma verify_copy_fs [simp]: "fs (snd (verify_copy self s)) = fs s"
  by (simp add: verify_copy_def verify_copy_loop_eq Let_def)

lemma verify_copy_done:
  "verify_copy self s = (True, s') \<Longrightarrow> \<not> dry_run self \<Longrightarrow>
   p \<in> set (target_dotfiles_components_paths self) \<Longrightarrow> path_lexists (fs s) p"
  by (auto simp: verify_copy_def verify_copy_loop_eq Let_def filter_empty_conv split: if_splits)

lemma copy_dotfiles_frame:
  "\<not> prefix (USER_DOTFILES_DIR D) k \<Longrightarrow>
   lookup (fs (snd (copy_dotfiles D W self s))) k = lookup (fs s) k"
  by (simp add: copy_dotfiles_def Let_def split_beta call_copy_frame call_remove_frame
           split: option.splits)

lemma copy_dotfiles_done:
  assumes "copy_dotfiles D W self s = (True, s')" and "\<not> dry_run self"
    and "\<not> prefix (USER_DOTFILES_DIR D) (HYPRDOTS_DOTFILES_DIR D @ rel)"
    and "(\<forall>r. lookup (fs s) (USER_DOTFILES_DIR D @ r) = None)
         \<or> (path_exists (fs s) (USER_DOTFILES_DIR D)
            \<and> remove_fault W (USER_DOTFILES_DIR D) (fs s) = None)"
  shows "lookup (fs s') (USER_DOTFILES_DIR D @ rel) = lookup (fs s) (HYPRDOTS_DOTFILES_DIR D @ rel)"
proof -
  let ?s1 = "emits [LoggerInfo (MsgPath ''Copying dotfiles to {USER_DOTFILES_DIR}''
                                    (USER_DOTFILES_DIR D)),
                    SpinnerUpdate (Msg ''Copying dotfiles...'')] s"
  let ?s2 = "emits [LoggerInfo (Msg ''Creating dotfiles dir...'')] ?s1"
  let ?s3 = "snd (call_exists (USER_DOTFILES_DIR D) ?s2)"
  let ?s4 = "if fst (call_exists (USER_DOTFILES_DIR D) ?s2)
             then snd (call_remove W (USER_DOTFILES_DIR D)
                    (emits [LoggerInfo (Msg ''Dotfiles dir already exists, removing it...'')] ?s3))
             else ?s3"
  let ?s5 = "emits [LoggerInfo (Msg ''Copying...'')] ?s4"
  have src: "lookup (fs ?s5) (HYPRDOTS_DOTFILES_DIR D @ rel)
             = lookup (fs s) (HYPRDOTS_DOTFILES_DIR D @ rel)"
    using assms(3) by (simp add: call_remove_frame)
  have clean: "lookup (fs ?s5) (USER_DOTFILES_DIR D @ rel) = None"
  proof (cases "path_exists (fs s) (USER_DOTFILES_DIR D)")
    case True
    hence l: "path_lexists (fs s) (USER_DOTFILES_DIR D)" by (rule path_exists_lexists)
    have "\<not> (\<forall>r. lookup (fs s) (USER_DOTFILES_DIR D @ r) = None)"
    proof
      assume "\<forall>r. lookup (fs s) (USER_DOTFILES_DIR D @ r) = None"
      hence "lookup (fs s) (USER_DOTFILES_DIR D @ []) = None" by (rule spec)
      with l show False by (simp add: path_lexists_def)
    qed
    with assms(4) have "remove_fault W (USER_DOTFILES_DIR D) (fs s) = None" by simp
    from remove_clean[OF l this, of rel] True show ?thesis
      by (simp add: call_exists_def call_remove_def split_beta)
  next
    case False
    with assms(4) have "\<forall>r. lookup (fs s) (USER_DOTFILES_DIR D @ r) = None" by simp
    hence "lookup (fs s) (USER_DOTFILES_DIR D @ rel) = None" by (rule spec)
    with False show ?thesis by (simp add: call_exists_def)
  qed
  from assms(1,2) have c: "fst (copy W (HYPRDOTS_DOTFILES_DIR D) (USER_DOTFILES_DIR D) (fs ?s5)) = None"
    and f: "fs s' = snd (copy W (HYPRDOTS_DOTFILES_DIR D) (USER_DOTFILES_DIR D) (fs ?s5))"
    by (auto simp: copy_dotfiles_def Let_def split_beta call_copy_def split: option.splits if_splits)
  hence "copy W (HYPRDOTS_DOTFILES_DIR D) (USER_DOTFILES_DIR D) (fs ?s5) = (None, fs s')"
    by (simp add: prod_eq_iff)
  from copy_done[OF this, of rel]
  have cd: "lookup (fs s') (USER_DOTFILES_DIR D @ rel)
            = (case lookup (fs ?s5) (HYPRDOTS_DOTFILES_DIR D @ rel) of
                 None \<Rightarrow> lookup (fs ?s5) (USER_DOTFILES_DIR D @ rel)
               | Some v \<Rightarrow> Some v)" .
  show ?thesis
    unfolding cd clean src by (cases "lookup (fs s) (HYPRDOTS_DOTFILES_DIR D @ rel)") simp_all
qed

lemma remove_existing_configs_loop_frame:
  "\<forall>c \<in> set cs. \<not> prefix (joinpath (USER_CONFIGS_DIR D) c) k \<Longrightarrow>
   lookup (fs (snd (remove_existing_configs_loop D W cs s))) k = lookup (fs s) k"
proof (induction cs arbitrary: s)
  case Nil
  show ?case by simp
next
  case (Cons c cs)
  have 1: "lookup (fs (snd (call_remove W (joinpath (USER_CONFIGS_DIR D) c) s))) k = lookup (fs s) k"
    using Cons.prems by (simp add: call_remove_frame)
  have 2: "lookup (fs (snd (remove_existing_configs_loop D W cs s1))) k = lookup (fs s1) k" for s1
    using Cons.IH Cons.prems by simp
  show ?case
    using 1 2 by (simp add: Let_def split_beta)
qed

lemma remove_existing_configs_frame:
  "\<forall>c \<in> set (dotfiles_components self). \<not> prefix (joinpath (USER_CONFIGS_DIR D) c) k \<Longrightarrow>
   lookup (fs (snd (remove_existing_configs D W self s))) k = lookup (fs s) k"
  by (simp add: remove_existing_configs_def Let_def remove_existing_configs_loop_frame)

lemma create_links_loop_frame:
  "k \<notin> joinpath (USER_CONFIGS_DIR D) ` set cs \<Longrightarrow>
   lookup (fs (snd (create_links_loop D W cs acc s))) k = lookup (fs s) k"
proof (induction cs arbitrary: acc s)
  case Nil
  show ?case by simp
next
  case (Cons c cs)
  let ?a = "joinpath (USER_DOTFILES_DIR D) c" and ?b = "joinpath (USER_CONFIGS_DIR D) c"
  obtain ok s1 where r: "call_create_symlink W ?a ?b s = (ok, s1)"
    by (cases "call_create_symlink W ?a ?b s")
  from Cons.prems have kb: "k \<noteq> ?b" and kr: "k \<notin> joinpath (USER_CONFIGS_DIR D) ` set cs"
    by auto
  from call_create_symlink_fs[OF r] kb have 1: "lookup (fs s1) k = lookup (fs s) k" by blast
  have 2: "lookup (fs (snd (create_links_loop D W cs acc' s2))) k = lookup (fs s2) k" for acc' s2
    using Cons.IH[OF kr] .
  show ?case
    using r 1 2 by (simp add: Let_def)
qed

lemma create_links_frame:
  "k \<notin> joinpath (USER_CONFIGS_DIR D) ` set (dotfiles_components self) \<Longrightarrow>
   lookup (fs (snd (create_links D W self s))) k = lookup (fs s) k"
  by (simp add: create_links_def Let_def split_beta create_links_loop_frame)

lemma create_links_done:
  assumes "create_links D W self s = (True, s')" and "\<not> dry_run self"
    and "distinct (dotfiles_components self)" and "c \<in> set (dotfiles_components self)"
  shows "lookup (fs s') (joinpath (USER_CONFIGS_DIR D) c)
           = Some (Link (joinpath (USER_DOTFILES_DIR D) c))"
proof -
  let ?s1 = "emits [LoggerInfo (Msg ''Creating system links.''),
                    SpinnerUpdate (Msg ''Linking new dotfiles...'')] s"
  obtain failed s2 where l: "create_links_loop D W (dotfiles_components self) [] ?s1 = (failed, s2)"
    by (cases "create_links_loop D W (dotfiles_components self) [] ?s1")
  with assms(1,2) have e: "failed = []" and s: "s' = s2"
    by (auto simp: create_links_def Let_def split: if_splits)
  from create_links_loop_char[OF l assms(3)] e
  have "filter (\<lambda>st. \<not> linked (fs s2) st) (map (link_pair D) (dotfiles_components self)) = []"
    by simp
  with assms(4) have "linked (fs s2) (link_pair D c)"
    by (auto simp: filter_empty_conv)
  thus ?thesis unfolding s by (simp add: linked_def link_pair_def)
qed


lemma prefix_joinpath: "prefix (joinpath p n) k \<Longrightarrow> prefix p k"
  by (auto simp: joinpath_def prefix_def)

lemma run_command_frame:
  "writes_below W argv root \<Longrightarrow> \<not> prefix root k \<Longrightarrow>
   lookup (snd (run_command W argv f)) k = lookup f k"
  by (auto simp: run_command_def writes_below_def split: proc.splits)

lemma call_run_command_frame:
  "writes_below W argv root \<Longrightarrow> \<not> prefix root k \<Longrightarrow>
   lookup (fs (snd (call_run_command W argv s))) k = lookup (fs s) k"
  by (simp add: call_run_command_def split_beta run_command_frame)

lemma tpm_remove_existing_frame:
  "\<not> prefix (tpm_dir D) k \<Longrightarrow> lookup (fs (tpm_remove_existing D W s)) k = lookup (fs s) k"
  by (simp add: tpm_remove_existing_def split_beta call_remove_frame)

lemma tpm_dir_below_plugins: "prefix (tpm_dir D) k \<Longrightarrow> prefix (plugins_dir D) k"
  by (auto simp: tpm_dir_def plugins_dir_def dest: prefix_joinpath)

lemma install_tpm_frame:
  assumes "writes_below W (tpm_argv D) (plugins_dir D)" and "\<not> prefix (plugins_dir D) k"
  shows "lookup (fs (snd (install_tpm D W self s))) k = lookup (fs s) k"
proof -
  from assms(2) have t: "\<not> prefix (tpm_dir D) k" using tpm_dir_below_plugins by blast
  have c: "lookup (fs (snd (call_run_command W (tpm_argv D) s1))) k = lookup (fs s1) k" for s1
    using call_run_command_frame[OF assms] .
  show ?thesis
    using c[of "tpm_remove_existing D W
                  (emits [LoggerInfo (Msg ''Installing TPM (Tmux Plugin Manager)''),
                          SpinnerUpdate (Msg ''Installing TPM for tmux...'')] s)"]
    by (auto simp: install_tpm_def Let_def tpm_remove_existing_frame[OF t]
             split: prod.splits option.splits)
qed

lemma lazyvim_remove_existing_frame:
  "\<not> prefix (lazyvim_dir D) k \<Longrightarrow>
   lookup (fs (lazyvim_remove_existing D W s)) k = lookup (fs s) k"
  by (simp add: lazyvim_remove_existing_def split_beta call_remove_frame)

lemma lazyvim_backup_frame:
  assumes "\<not> prefix (nvim_config_dir D) k" and "\<not> prefix (backup_dir D) k"
  shows "lookup (fs (snd (lazyvim_backup D W s))) k = lookup (fs s) k"
proof -
  let ?s1 = "snd (call_exists (nvim_config_dir D) s)"
  let ?s2 = "snd (call_exists (backup_dir D) ?s1)"
  let ?s3 = "if fst (call_exists (backup_dir D) ?s1)
             then snd (call_remove W (backup_dir D) ?s2) else ?s2"
  have 3: "lookup (fs ?s3) k = lookup (fs s) k"
    by (simp add: call_remove_frame[OF assms(2)])
  have r: "lookup (fs (snd (call_rename W (nvim_config_dir D) (backup_dir D) ?s3))) k
           = lookup (fs s) k"
    using call_rename_frame[OF assms, of W ?s3] 3 by simp
  show ?thesis
  proof (cases "fst (call_exists (nvim_config_dir D) s)")
    case False
    thus ?thesis by (simp add: lazyvim_backup_def split_beta)
  next
    case True
    obtain e s4 where c: "call_rename W (nvim_config_dir D) (backup_dir D) ?s3 = (e, s4)"
      by (cases "call_rename W (nvim_config_dir D) (backup_dir D) ?s3")
    with r have "lookup (fs s4) k = lookup (fs s) k" by simp
    with True c show ?thesis
      by (cases e) (simp_all add: lazyvim_backup_def split_beta Let_def)
  qed
qed

lemma lazyvim_clone_frame:
  assumes "writes_below W (lazyvim_argv D) (lazyvim_dir D)" and "\<not> prefix (lazyvim_dir D) k"
  shows "lookup (fs (snd (lazyvim_clone D W s))) k = lookup (fs s) k"
proof -
  have g: "\<not> prefix (joinpath (lazyvim_dir D) ''.git'') k"
    using assms(2) prefix_joinpath by blast
  have c: "lookup (fs (snd (call_run_command W (lazyvim_argv D) s))) k = lookup (fs s) k"
    using call_run_command_frame[OF assms] .
  show ?thesis
    using c
    by (auto simp: lazyvim_clone_def Let_def split_beta call_remove_frame[OF g]
             split: prod.splits option.splits)
qed

lemma install_lazyvim_frame:
  assumes "writes_below W (lazyvim_argv D) (lazyvim_dir D)" and "\<not> prefix (lazyvim_dir D) k"
    and "\<not> prefix (nvim_config_dir D) k" and "\<not> prefix (backup_dir D) k"
  shows "lookup (fs (snd (install_lazyvim D W self s))) k = lookup (fs s) k"
proof -
  let ?s1 = "emits [LoggerInfo (Msg ''Installing LazyVim''),
                    SpinnerUpdate (Msg ''Installing LazyVim...'')] s"
  let ?s2 = "lazyvim_remove_existing D W ?s1"
  have 1: "lookup (fs ?s2) k = lookup (fs s) k"
    using lazyvim_remove_existing_frame[OF assms(2)] by simp
  have 2: "lookup (fs (snd (lazyvim_backup D W ?s2))) k = lookup (fs ?s2) k"
    using lazyvim_backup_frame[OF assms(3,4)] .
  have 3: "lookup (fs (snd (lazyvim_clone D W s3))) k = lookup (fs s3) k" for s3
    using lazyvim_clone_frame[OF assms(1,2)] .
  show ?thesis
    using 1 2 3[of "snd (lazyvim_backup D W ?s2)"]
    by (auto simp: install_lazyvim_def Let_def split_beta split: prod.splits option.splits)
qed


lemma broken_link_not_exists: "broken_link f p \<Longrightarrow> \<not> path_exists f p"
  by (auto simp: broken_link_def split: option.splits node.splits)

lemma lazyvim_backup_broken:
  "broken_link (fs s) (nvim_config_dir D) \<Longrightarrow>
   lazyvim_backup D W s = (None, emits [Call (PathExists (nvim_config_dir D))] s)"
  by (simp add: lazyvim_backup_def call_exists_def broken_link_not_exists)

lemma lazyvim_remove_existing_broken:
  "broken_link (fs s) (lazyvim_dir D) \<Longrightarrow>
   lazyvim_remove_existing D W s = emits [Call (PathExists (lazyvim_dir D))] s"
  by (simp add: lazyvim_remove_existing_def call_exists_def broken_link_not_exists)

lemma tpm_remove_existing_broken:
  "broken_link (fs s) (tpm_dir D) \<Longrightarrow>
   tpm_remove_existing D W s = emits [Call (PathExists (tpm_dir D))] s"
  by (simp add: tpm_remove_existing_def call_exists_def broken_link_not_exists)

lemma prefix_joinpath_same: "prefix (joinpath p a) (joinpath p b) = (a = b)"
  by (simp add: joinpath_def)

lemma nvim_not_component:
  "''nvim'' \<notin> set components" "''nvim.backup'' \<notin> set components"
  by (simp_all add: components_def)

lemma install_lazyvim_no_backup:
  assumes "\<not> path_exists (fs (lazyvim_remove_existing D W (emits lazyvim_started s)))
             (nvim_config_dir D)"
    and "writes_below W (lazyvim_argv D) (lazyvim_dir D)"
    and "\<not> prefix (lazyvim_dir D) k"
  shows "lookup (fs (snd (install_lazyvim D W self s))) k = lookup (fs s) k"
proof (cases "dry_run self")
  case True
  thus ?thesis by (simp add: install_lazyvim_def)
next
  case False
  let ?s2 = "lazyvim_remove_existing D W (emits lazyvim_started s)"
  have b: "lazyvim_backup D W ?s2 = (None, emits [Call (PathExists (nvim_config_dir D))] ?s2)"
    using assms(1) by (simp add: lazyvim_backup_def call_exists_def)
  have 1: "lookup (fs ?s2) k = lookup (fs s) k"
    using lazyvim_remove_existing_frame[OF assms(3)] by simp
  have "install_lazyvim D W self s
        = (Returned (fst (lazyvim_clone D W (emits [Call (PathExists (nvim_config_dir D))] ?s2))),
           snd (lazyvim_clone D W (emits [Call (PathExists (nvim_config_dir D))] ?s2)))"
    using False b by (simp add: install_lazyvim_def lazyvim_started_def split_beta Let_def)
  thus ?thesis
    using lazyvim_clone_frame[OF assms(2,3)] 1 by simp
qed


lemma below_stage:
  assumes "\<not> prefix (USER_DOTFILES_DIR D) k"
  shows "\<not> prefix (plugins_dir D) k" and "\<not> prefix (lazyvim_dir D) k"
  using assms prefix_joinpath unfolding plugins_dir_def lazyvim_dir_def by blast+

lemma steps_1_to_6_frame:
  assumes "validate_sources (init D False) (emits install_started s) = (r1, s1)"
    and "copy_dotfiles D W (init D False) s1 = (r2, s2)"
    and "verify_copy (init D False) s2 = (r3, s3)"
    and "remove_existing_configs D W (init D False) s3 = (r4, s4)"
    and "create_links D W (init D False) s4 = (r5, s5)"
    and "install_tpm D W (init D False) (emits dotfiles_installed s5) = (r6, s6)"
    and "\<not> prefix (USER_DOTFILES_DIR D) k"
    and "\<forall>c \<in> set components. \<not> prefix (joinpath (USER_CONFIGS_DIR D) c) k"
    and "writes_below W (tpm_argv D) (plugins_dir D)"
  shows "lookup (fs s1) k = lookup (fs s) k" "lookup (fs s2) k = lookup (fs s) k"
    "lookup (fs s3) k = lookup (fs s) k" "lookup (fs s4) k = lookup (fs s) k"
    "lookup (fs s5) k = lookup (fs s) k" "lookup (fs s6) k = lookup (fs s) k"
proof -
  have c: "dotfiles_components (init D False) = components" by (simp add: init_def)
  show 1: "lookup (fs s1) k = lookup (fs s) k"
    using validate_sources_fs[of "init D False" "emits install_started s"] assms(1) by simp
  show 2: "lookup (fs s2) k = lookup (fs s) k"
    using copy_dotfiles_frame[OF assms(7), of W "init D False" s1] assms(2) 1 by simp
  show 3: "lookup (fs s3) k = lookup (fs s) k"
    using verify_copy_fs[of "init D False" s2] assms(3) 2 by simp
  show 4: "lookup (fs s4) k = lookup (fs s) k"
    using remove_existing_configs_frame[of "init D False" D k W s3] assms(4,8) 3 c by simp
  have "k \<notin> joinpath (USER_CONFIGS_DIR D) ` set components"
    using assms(8) by auto
  thus 5: "lookup (fs s5) k = lookup (fs s) k"
    using create_links_frame[of k D "init D False" W s4] assms(5) 4 c by simp
  show "lookup (fs s6) k = lookup (fs s) k"
    using install_tpm_frame[OF assms(9) below_stage(1)[OF assms(7)],
            of "init D False" "emits dotfiles_installed s5"] assms(6) 5 by simp
qed


lemma install_frame_no_backup:
  assumes "validate_sources (init D False) (emits install_started s) = (r1, s1)"
    and "copy_dotfiles D W (init D False) s1 = (r2, s2)"
    and "verify_copy (init D False) s2 = (r3, s3)"
    and "remove_existing_configs D W (init D False) s3 = (r4, s4)"
    and "create_links D W (init D False) s4 = (r5, s5)"
    and "install_tpm D W (init D False) (emits dotfiles_installed s5) = (r6, s6)"
    and "\<not> prefix (USER_DOTFILES_DIR D) k"
    and "\<forall>c \<in> set components. \<not> prefix (joinpath (USER_CONFIGS_DIR D) c) k"
    and "writes_below W (tpm_argv D) (plugins_dir D)"
    and "writes_below W (lazyvim_argv D) (lazyvim_dir D)"
    and "\<not> path_exists (fs (lazyvim_remove_existing D W (emits lazyvim_started s6)))
             (nvim_config_dir D)"
  shows "lookup (fs (snd (install D W (init D False) s))) k = lookup (fs s) k"
proof -
  note fr = steps_1_to_6_frame[OF assms(1-9)]
  obtain r7 s7 where l: "install_lazyvim D W (init D False) s6 = (r7, s7)"
    by (cases "install_lazyvim D W (init D False) s6")
  have 7: "lookup (fs s7) k = lookup (fs s) k"
    using install_lazyvim_no_backup[OF assms(11,10) below_stage(2)[OF assms(7)], of "init D False"]
      l fr(6) by simp
  note c = install_chain[OF assms(1-6) l]
  show ?thesis
    unfolding c using fr 7 by (auto split: outcome.splits)
qed

lemma or_elim_left: "P \<or> Q \<Longrightarrow> \<not> P \<Longrightarrow> Q"
  by blast

subsection \<open>Paths that a successful run leaves as the copy made them\<close>

lemma prefix_app_cases: "prefix a (b @ x) \<Longrightarrow> prefix a b \<or> prefix b a"
  by (auto simp: prefix_append)

lemma unrelated_apart: "unrelated a b \<Longrightarrow> \<not> prefix (a @ x) (b @ y)"
proof
  assume u: "unrelated a b" and p: "prefix (a @ x) (b @ y)"
  from p have "prefix a (b @ y)" using append_prefixD by blast
  from prefix_app_cases[OF this] u show False by (simp add: unrelated_def)
qed

lemma unrelated_sym: "unrelated a b \<Longrightarrow> unrelated b a"
  by (auto simp: unrelated_def)

lemma install_returns_true:
  assumes "install D W self s = (Returned True, s')"
    and "validate_sources self (emits install_started s) = (r1, s1)"
    and "copy_dotfiles D W self s1 = (r2, s2)"
    and "verify_copy self s2 = (r3, s3)"
    and "remove_existing_configs D W self s3 = (r4, s4)"
    and "create_links D W self s4 = (r5, s5)"
    and "install_tpm D W self (emits dotfiles_installed s5) = (r6, s6)"
    and "install_lazyvim D W self s6 = (r7, s7)"
  shows "r1" "r2" "r3" "r4" "r5" "r6" "r7 = Returned True" "fs s' = fs s7"
  using assms(1) unfolding install_chain[OF assms(2-8)]
  by (auto split: if_splits outcome.splits)

lemma install_tpm_frame_tight:
  assumes "writes_below W (tpm_argv D) (tpm_dir D)" and "\<not> prefix (tpm_dir D) k"
  shows "lookup (fs (snd (install_tpm D W self s))) k = lookup (fs s) k"
proof -
  have c: "lookup (fs (snd (call_run_command W (tpm_argv D) s1))) k = lookup (fs s1) k" for s1
    using call_run_command_frame[OF assms] .
  show ?thesis
    using c[of "tpm_remove_existing D W
                  (emits [LoggerInfo (Msg ''Installing TPM (Tmux Plugin Manager)''),
                          SpinnerUpdate (Msg ''Installing TPM for tmux...'')] s)"]
    by (auto simp: install_tpm_def Let_def tpm_remove_existing_frame[OF assms(2)]
             split: prod.splits option.splits)
qed

lemma staged_path_frame:
  assumes "validate_sources (init D False) (emits install_started s) = (True, s1)"
    and "copy_dotfiles D W (init D False) s1 = (True, s2)"
    and "verify_copy (init D False) s2 = (True, s3)"
    and "remove_existing_configs D W (init D False) s3 = (True, s4)"
    and "create_links D W (init D False) s4 = (True, s5)"
    and "install_tpm D W (init D False) (emits dotfiles_installed s5) = (True, s6)"
    and "install_lazyvim D W (init D False) s6 = (Returned True, s7)"
    and "unrelated (HYPRDOTS_DOTFILES_DIR D) (USER_DOTFILES_DIR D)"
    and "\<forall>n \<in> set components \<union> {''nvim'', ''nvim.backup''}.
           unrelated (joinpath (USER_CONFIGS_DIR D) n) (USER_DOTFILES_DIR D)"
    and "writes_below W (tpm_argv D) (tpm_dir D)"
    and "writes_below W (lazyvim_argv D) (lazyvim_dir D)"
    and "(\<forall>r. lookup (fs s) (USER_DOTFILES_DIR D @ r) = None)
         \<or> (path_exists (fs s) (USER_DOTFILES_DIR D)
            \<and> remove_fault W (USER_DOTFILES_DIR D) (fs s) = None)"
    and "c \<in> set components"
    and "\<not> prefix (tpm_dir D) (joinpath (USER_DOTFILES_DIR D) c @ rel)"
  shows "lookup (fs s2) (joinpath (USER_DOTFILES_DIR D) c @ rel)
           = lookup (fs s) (joinpath (HYPRDOTS_DOTFILES_DIR D) c @ rel)"
    and "lookup (fs s7) (joinpath (USER_DOTFILES_DIR D) c @ rel)
           = lookup (fs s2) (joinpath (USER_DOTFILES_DIR D) c @ rel)"
proof -
  let ?k = "joinpath (USER_DOTFILES_DIR D) c @ rel"
  have nd: "\<not> dry_run (init D False)" and cs: "dotfiles_components (init D False) = components"
    by (simp_all add: init_def)
  have k: "?k = USER_DOTFILES_DIR D @ (c # rel)" by (simp add: joinpath_def)
  have src: "joinpath (HYPRDOTS_DOTFILES_DIR D) c @ rel = HYPRDOTS_DOTFILES_DIR D @ (c # rel)"
    by (simp add: joinpath_def)
  have 1: "fs s1 = fs s"
    using validate_sources_fs[of "init D False" "emits install_started s"] assms(1) by simp
  have "\<not> prefix (USER_DOTFILES_DIR D) (HYPRDOTS_DOTFILES_DIR D @ (c # rel))"
    using unrelated_apart[OF unrelated_sym[OF assms(8)], of "[]"] by simp
  from copy_dotfiles_done[OF assms(2) nd this assms(12)[folded 1]]
  show "lookup (fs s2) ?k = lookup (fs s) (joinpath (HYPRDOTS_DOTFILES_DIR D) c @ rel)"
    unfolding k src 1 .
  have 3: "fs s3 = fs s2"
    using verify_copy_fs[of "init D False" s2] assms(3) by simp
  have cfg: "\<not> prefix (joinpath (USER_CONFIGS_DIR D) n) ?k"
    if "n \<in> set components \<union> {''nvim'', ''nvim.backup''}" for n
    using unrelated_apart[OF assms(9)[rule_format, OF that], of "[]" "c # rel"] by (simp add: k)
  have 4: "lookup (fs s4) ?k = lookup (fs s3) ?k"
    using remove_existing_configs_frame[of "init D False" D ?k W s3] cfg assms(4) cs by simp
  have "?k \<notin> joinpath (USER_CONFIGS_DIR D) ` set (dotfiles_components (init D False))"
  proof
    assume "?k \<in> joinpath (USER_CONFIGS_DIR D) ` set (dotfiles_components (init D False))"
    then obtain n where n: "n \<in> set components" and e: "?k = joinpath (USER_CONFIGS_DIR D) n"
      using cs by auto
    from cfg[of n] n e show False by simp
  qed
  from create_links_frame[OF this, of W s4]
  have 5: "lookup (fs s5) ?k = lookup (fs s4) ?k" using assms(5) by simp
  have 6: "lookup (fs s6) ?k = lookup (fs s5) ?k"
    using install_tpm_frame_tight[OF assms(10,14), of "init D False" "emits dotfiles_installed s5"]
      assms(6) by simp
  have "c \<noteq> ''nvim''" using assms(13) nvim_not_component(1) by blast
  hence lv: "\<not> prefix (lazyvim_dir D) ?k"
    unfolding k lazyvim_dir_def joinpath_def by simp
  have nv: "\<not> prefix (nvim_config_dir D) ?k" and bk: "\<not> prefix (backup_dir D) ?k"
    using cfg[of "''nvim''"] cfg[of "''nvim.backup''"]
    by (simp_all add: nvim_config_dir_def backup_dir_def)
  have 7: "lookup (fs s7) ?k = lookup (fs s6) ?k"
    using install_lazyvim_frame[OF assms(11) lv nv bk, of "init D False" s6] assms(7) by simp
  show "lookup (fs s7) ?k = lookup (fs s2) ?k"
    using 3 4 5 6 7 by simp
qed

lemma link_frame:
  assumes "install_tpm D W (init D False) (emits dotfiles_installed s5) = (True, s6)"
    and "install_lazyvim D W (init D False) s6 = (Returned True, s7)"
    and "\<forall>n \<in> set components \<union> {''nvim'', ''nvim.backup''}.
           unrelated (joinpath (USER_CONFIGS_DIR D) n) (USER_DOTFILES_DIR D)"
    and "writes_below W (tpm_argv D) (tpm_dir D)"
    and "writes_below W (lazyvim_argv D) (lazyvim_dir D)"
    and "c \<in> set components"
  shows "lookup (fs s7) (joinpath (USER_CONFIGS_DIR D) c)
           = lookup (fs s5) (joinpath (USER_CONFIGS_DIR D) c)"
proof -
  let ?k = "joinpath (USER_CONFIGS_DIR D) c"
  have u: "unrelated ?k (USER_DOTFILES_DIR D)"
    using assms(3,6) by blast
  have st: "\<not> prefix (USER_DOTFILES_DIR D @ x) ?k" for x
    using unrelated_apart[OF unrelated_sym[OF u], of x "[]"] by simp
  have tp: "\<not> prefix (tpm_dir D) ?k"
    using st[of "[''tmux'', ''plugins'', ''tpm'']"] by (simp add: tpm_dir_def joinpath_def)
  have lv: "\<not> prefix (lazyvim_dir D) ?k"
    using st[of "[''nvim'']"] by (simp add: lazyvim_dir_def joinpath_def)
  have "c \<noteq> ''nvim''" "c \<noteq> ''nvim.backup''"
    using assms(6) nvim_not_component by blast+
  hence nv: "\<not> prefix (nvim_config_dir D) ?k" and bk: "\<not> prefix (backup_dir D) ?k"
    by (simp_all add: nvim_config_dir_def backup_dir_def joinpath_def)
  have 6: "lookup (fs s6) ?k = lookup (fs s5) ?k"
    using install_tpm_frame_tight[OF assms(4) tp, of "init D False" "emits dotfiles_installed s5"]
      assms(1) by simp
  have 7: "lookup (fs s7) ?k = lookup (fs s6) ?k"
    using install_lazyvim_frame[OF assms(5) lv nv bk, of "init D False" s6] assms(2) by simp
  show ?thesis using 6 7 by simp
qed

subsection \<open>The example run that succeeds\<close>

lemma clones_ok_tpm: "writes_below clones_ok (tpm_argv demo_dirs) (plugins_dir demo_dirs)"
  by (auto simp: writes_below_def clones_ok_def lookup_append lookup_Cons lookup_def
        plugins_dir_def tpm_dir_def joinpath_def demo_dirs_def)

lemma clones_ok_lazyvim: "writes_below clones_ok (lazyvim_argv demo_dirs) (lazyvim_dir demo_dirs)"
  by (auto simp: writes_below_def clones_ok_def lookup_append lookup_Cons lookup_def
        lazyvim_dir_def joinpath_def demo_dirs_def tpm_argv_def lazyvim_argv_def)

lemma full_r1: "fst (validate_sources (init demo_dirs False) (emits install_started full_start))"
  by code_simp

lemma full_r2: "fst (copy_dotfiles demo_dirs clones_ok (init demo_dirs False) full_s1)"
  by code_simp

lemma full_r3: "fst (verify_copy (init demo_dirs False) full_s2)"
  by code_simp

lemma full_r4: "fst (remove_existing_configs demo_dirs clones_ok (init demo_dirs False) full_s3)"
  by code_simp

lemma full_r5: "fst (create_links demo_dirs clones_ok (init demo_dirs False) full_s4)"
  by code_simp

lemma full_r6: "fst (install_tpm demo_dirs clones_ok (init demo_dirs False)
                    (emits dotfiles_installed full_s5))"
  by code_simp

lemma full_r7: "fst (install_lazyvim demo_dirs clones_ok (init demo_dirs False) full_s6)
                = Returned True"
  by code_simp

lemma full_run_returns_true:
  "install demo_dirs clones_ok (init demo_dirs False) full_start
     = (Returned True, emits [SpinnerExit, PrintLine] full_s7)"
proof -
  note sp = surjective_pairing
  note c = install_chain[OF sp sp sp sp sp sp sp,
      where s = full_start and self = "init demo_dirs False" and D = demo_dirs and W = clones_ok,
      folded full_s1_def, folded full_s2_def, folded full_s3_def, folded full_s4_def,
      folded full_s5_def, folded full_s6_def, folded full_s7_def]
  show ?thesis
    unfolding c
    by (simp only: full_r1 full_r2 full_r3 full_r4 full_r5 full_r6 full_r7 simp_thms
          if_False if_True outcome.case)
qed

lemma demo_dirs_unrelated:
  "unrelated (HYPRDOTS_DOTFILES_DIR demo_dirs) (USER_DOTFILES_DIR demo_dirs)"
  by (simp add: unrelated_def demo_dirs_def)

lemma demo_dirs_apart:
  "\<forall>n \<in> set components \<union> {''nvim'', ''nvim.backup''}.
     unrelated (joinpath (USER_CONFIGS_DIR demo_dirs) n) (USER_DOTFILES_DIR demo_dirs)"
  by (simp add: unrelated_def demo_dirs_def joinpath_def)

lemma clones_ok_tpm_dir: "writes_below clones_ok (tpm_argv demo_dirs) (tpm_dir demo_dirs)"
  by (auto simp: writes_below_def clones_ok_def lookup_append lookup_Cons lookup_def
        tpm_dir_def joinpath_def demo_dirs_def)

lemma full_start_stage_removed:
  "(\<forall>r. lookup (fs full_start) (USER_DOTFILES_DIR demo_dirs @ r) = None)
   \<or> (path_exists (fs full_start) (USER_DOTFILES_DIR demo_dirs)
      \<and> remove_fault clones_ok (USER_DOTFILES_DIR demo_dirs) (fs full_start) = None)"
proof -
  have "path_exists (fs full_start) (USER_DOTFILES_DIR demo_dirs)"
    by code_simp
  moreover have "remove_fault clones_ok (USER_DOTFILES_DIR demo_dirs) (fs full_start) = None"
    by (simp add: clones_ok_def)
  ultimately show ?thesis by (intro disjI2 conjI)
qed

section \<open>Step 4 stops at the first failed removal\<close>

text \<open>
  Claim C5. On a non-dry run, \<open>_remove_existing_configs\<close> calls \<open>remove\<close> on
  \<open>USER_CONFIGS_DIR / name\<close> for the components in registry order. If every call
  returns true the step succeeds having removed all of them; otherwise there is a first
  component whose \<open>remove\<close> returned false, every component before it was removed
  successfully, the spinner reports exactly that path, the step returns false, and no
  \<open>remove\<close> is called for any later component.
\<close>

theorem remove_existing_configs_short_circuits:
  assumes "\<not> dry_run self"
    and "remove_existing_configs D W self s = (r, s')"
  shows "(r \<longrightarrow>
            trace s' = trace s
              @ [LoggerInfo (Msg ''Removing existing configs.''),
                 SpinnerUpdate (Msg ''Removing existing configs...'')]
              @ map (\<lambda>c. Call (Remove (joinpath (USER_CONFIGS_DIR D) c)))
                  (dotfiles_components self))
       \<and> (\<not> r \<longrightarrow>
            (\<exists>done c rest sm.
               dotfiles_components self = done @ c # rest
             \<and> remove_existing_configs_loop D W done
                   (emits [LoggerInfo (Msg ''Removing existing configs.''),
                           SpinnerUpdate (Msg ''Removing existing configs...'')] s) = (True, sm)
             \<and> fst (remove W (joinpath (USER_CONFIGS_DIR D) c) (fs sm)) = False
             \<and> fs s' = snd (remove W (joinpath (USER_CONFIGS_DIR D) c) (fs sm))
             \<and> trace s' = trace s
                 @ [LoggerInfo (Msg ''Removing existing configs.''),
                    SpinnerUpdate (Msg ''Removing existing configs...'')]
                 @ map (\<lambda>c. Call (Remove (joinpath (USER_CONFIGS_DIR D) c))) (done @ [c])
                 @ [SpinnerError (MsgPath ''Failed to remove existing config: {file}.''
                      (joinpath (USER_CONFIGS_DIR D) c))]))"
proof (intro conjI impI)
  let ?s1 = "emits [LoggerInfo (Msg ''Removing existing configs.''),
                    SpinnerUpdate (Msg ''Removing existing configs...'')] s"
  have loop: "remove_existing_configs_loop D W (dotfiles_components self) ?s1 = (r, s')"
    using assms by (simp add: remove_existing_configs_def)
  {
    assume r
    with loop remove_loop_ok[of D W "dotfiles_components self" ?s1 s']
    show "trace s' = trace s
              @ [LoggerInfo (Msg ''Removing existing configs.''),
                 SpinnerUpdate (Msg ''Removing existing configs...'')]
              @ map (\<lambda>c. Call (Remove (joinpath (USER_CONFIGS_DIR D) c)))
                  (dotfiles_components self)"
      by simp
  }
  {
    assume "\<not> r"
    with loop have "remove_existing_configs_loop D W (dotfiles_components self) ?s1 = (False, s')"
      by simp
    from remove_loop_fail[OF this] obtain dn c rest sm sf where
      h: "dotfiles_components self = dn @ c # rest"
         "remove_existing_configs_loop D W dn ?s1 = (True, sm)"
         "call_remove W (joinpath (USER_CONFIGS_DIR D) c) sm = (False, sf)"
         "s' = emits [SpinnerError (MsgPath ''Failed to remove existing config: {file}.''
                   (joinpath (USER_CONFIGS_DIR D) c))] sf" by blast
    have t1: "trace sm = trace ?s1 @ map (\<lambda>c. Call (Remove (joinpath (USER_CONFIGS_DIR D) c))) dn"
      using remove_loop_ok[OF h(2)] .
    have t2: "trace sf = trace sm @ [Call (Remove (joinpath (USER_CONFIGS_DIR D) c))]"
      using call_remove_trace[OF h(3)] .
    have f1: "fst (remove W (joinpath (USER_CONFIGS_DIR D) c) (fs sm)) = False"
      and f2: "fs sf = snd (remove W (joinpath (USER_CONFIGS_DIR D) c) (fs sm))"
      using h(3) by (auto simp: call_remove_def split: prod.splits)
    show "\<exists>done c rest sm.
               dotfiles_components self = done @ c # rest
             \<and> remove_existing_configs_loop D W done ?s1 = (True, sm)
             \<and> fst (remove W (joinpath (USER_CONFIGS_DIR D) c) (fs sm)) = False
             \<and> fs s' = snd (remove W (joinpath (USER_CONFIGS_DIR D) c) (fs sm))
             \<and> trace s' = trace s
                 @ [LoggerInfo (Msg ''Removing existing configs.''),
                    SpinnerUpdate (Msg ''Removing existing configs...'')]
                 @ map (\<lambda>c. Call (Remove (joinpath (USER_CONFIGS_DIR D) c))) (done @ [c])
                 @ [SpinnerError (MsgPath ''Failed to remove existing config: {file}.''
                      (joinpath (USER_CONFIGS_DIR D) c))]"
      using h(1,2,4) t1 t2 f1 f2
      by (intro exI[of _ dn] exI[of _ c] exI[of _ rest] exI[of _ sm]) simp
  }
qed


theorem remove_existing_configs_short_circuits_witness:
  "\<not> dry_run (init demo_dirs False)
   \<and> remove_existing_configs demo_dirs rofi_busy (init demo_dirs False)
        \<lparr>fs = old_configs, trace = []\<rparr> = (False, rofi_busy_result)
   \<and> (\<exists>done c rest.
         dotfiles_components (init demo_dirs False) = done @ c # rest
       \<and> trace rofi_busy_result = trace \<lparr>fs = old_configs, trace = []\<rparr>
           @ [LoggerInfo (Msg ''Removing existing configs.''),
              SpinnerUpdate (Msg ''Removing existing configs...'')]
           @ map (\<lambda>c. Call (Remove (joinpath (USER_CONFIGS_DIR demo_dirs) c))) (done @ [c])
           @ [SpinnerError (MsgPath ''Failed to remove existing config: {file}.''
                (joinpath (USER_CONFIGS_DIR demo_dirs) c))])"
proof -
  have d: "\<not> dry_run (init demo_dirs False)" by (simp add: init_def)
  have e: "remove_existing_configs demo_dirs rofi_busy (init demo_dirs False)
        \<lparr>fs = old_configs, trace = []\<rparr> = (False, rofi_busy_result)"
    by code_simp
  from remove_existing_configs_short_circuits[OF d e] d e show ?thesis by blast
qed

section \<open>Step 3 reports every missing component\<close>

text \<open>
  Claim C3. On a non-dry run, \<open>_verify_copy\<close> calls \<open>path_lexists\<close> on
  \<open>USER_DOTFILES_DIR / name\<close> for every component, whatever the earlier answers were;
  it returns true exactly when no component is missing; it logs one error for each missing
  component, naming its path, in registry order; and it leaves the file system as it was.
\<close>

theorem verify_copy_collects_all_missing:
  "fst (verify_copy (init D False) s) = (missing_components D (fs s) = [])
   \<and> fs (snd (verify_copy (init D False) s)) = fs s
   \<and> calls_of (new_events s (snd (verify_copy (init D False) s)))
       = map PathLexists (map (joinpath (USER_DOTFILES_DIR D)) components)
   \<and> logged_errors (new_events s (snd (verify_copy (init D False) s)))
       = map (MsgPath ''Copied dotfile component {i} is missing.'') (missing_components D (fs s))"
proof -
  let ?ps = "map (joinpath (USER_DOTFILES_DIR D)) components"
  let ?ev = "\<lambda>p. Call (PathLexists p) #
                (if path_lexists (fs s) p then []
                 else [LoggerError (MsgPath ''Copied dotfile component {i} is missing.'' p)])"
  have c: "calls_of (concat (map ?ev qs)) = map PathLexists qs" for qs
    by (induction qs) auto
  have l: "logged_errors (concat (map ?ev qs))
           = map (MsgPath ''Copied dotfile component {i} is missing.'')
               (filter (\<lambda>p. \<not> path_lexists (fs s) p) qs)" for qs
    by (induction qs) auto
  have v: "verify_copy (init D False) s =
     (missing_components D (fs s) = [],
      emits ([LoggerInfo (Msg ''Checking if copied successfully or not.'')]
             @ concat (map ?ev ?ps)
             @ (if missing_components D (fs s) \<noteq> []
                then [SpinnerError (Msg ''Some dotfile components are missing, exiting...'')]
                else [])) s)"
    by (simp add: verify_copy_def init_def verify_copy_loop_eq missing_components_def emits_def)
  show ?thesis
    unfolding v by (simp add: c l missing_components_def del: map_map)
qed

section \<open>Step 5 attempts every link\<close>

text \<open>
  Claim C4. On a non-dry run, \<open>_create_links\<close> calls \<open>create_symlink\<close> with
  \<open>(USER_DOTFILES_DIR / name, USER_CONFIGS_DIR / name)\<close> for every component in registry
  order, whether or not earlier calls failed. The list \<open>failed_links\<close> it accumulates is
  exactly the list of component pairs whose target is not a link to its source afterwards,
  so every other component is correctly linked; the step returns true exactly when that
  list is empty; and one error is logged for each failed pair, naming source and target.
\<close>

theorem create_links_attempts_every_component:
  "case create_links_loop D W components []
          (emits [LoggerInfo (Msg ''Creating system links.''),
                  SpinnerUpdate (Msg ''Linking new dotfiles...'')] s) of
     (failed_links, s2) \<Rightarrow>
       (case create_links D W (init D False) s of
          (r, s') \<Rightarrow>
            r = (failed_links = [])
          \<and> fs s' = fs s2
          \<and> calls_of (new_events s s')
              = map (\<lambda>c. CreateSymlink (joinpath (USER_DOTFILES_DIR D) c)
                                        (joinpath (USER_CONFIGS_DIR D) c)) components
          \<and> logged_errors (new_events s s')
              = map (\<lambda>st. MsgPaths ''Failed to link {source} to {target}.'' (fst st) (snd st))
                  failed_links
          \<and> failed_links
              = filter (\<lambda>st. \<not> linked (fs s') st) (map (link_pair D) components))"
proof -
  let ?s1 = "emits [LoggerInfo (Msg ''Creating system links.''),
                    SpinnerUpdate (Msg ''Linking new dotfiles...'')] s"
  obtain failed s2 where l: "create_links_loop D W components [] ?s1 = (failed, s2)"
    by (cases "create_links_loop D W components [] ?s1")
  note ch = create_links_loop_char[OF l distinct_components]
  from ch obtain es where es: "trace s2 = trace ?s1 @ es" by blast
  hence ne: "new_events ?s1 s2 = es" by simp
  let ?fin = "if failed \<noteq> []
              then [SpinnerError (Msg ''Failed to create some links, exiting...'')] else []"
  have c: "create_links D W (init D False) s = (failed = [], emits ?fin s2)"
    using l by (simp add: create_links_def init_def emits_def)
  have tr: "trace (emits ?fin s2) = trace s
              @ ([LoggerInfo (Msg ''Creating system links.''),
                  SpinnerUpdate (Msg ''Linking new dotfiles...'')] @ es @ ?fin)"
    using es by simp
  have ne': "new_events s (emits ?fin s2)
              = [LoggerInfo (Msg ''Creating system links.''),
                 SpinnerUpdate (Msg ''Linking new dotfiles...'')] @ es @ ?fin"
    using new_events_append[OF tr] .
  show ?thesis
    unfolding l c prod.case ne'
    using ch ne by (simp del: map_map)
qed

section \<open>A dry run touches nothing\<close>

text \<open>
  Claim C6. With \<open>dry_run\<close> set, every step returns true: each of them except
  \<open>_verify_copy\<close> only logs, updates the spinner and sleeps, and \<open>_verify_copy\<close> only
  logs. \<open>install\<close> returns true, makes no call to the file system or to a child process,
  and leaves the file system exactly as it was, whatever it was (also when none of the
  three roots exists).
\<close>

theorem dry_run_changes_nothing:
  "validate_sources (init D True) s
     = (True, emits [LoggerInfo (Msg ''Validating source dotfiles components.''),
                     SpinnerUpdate (Msg ''Validating source dotfiles components...''),
                     Sleep 2] s)
   \<and> copy_dotfiles D W (init D True) s
     = (True, emits [LoggerInfo (MsgPath ''Copying dotfiles to {USER_DOTFILES_DIR}''
                                   (USER_DOTFILES_DIR D)),
                     SpinnerUpdate (Msg ''Copying dotfiles...''),
                     Sleep 2] s)
   \<and> verify_copy (init D True) s
     = (True, emits [LoggerInfo (Msg ''Checking if copied successfully or not.'')] s)
   \<and> remove_existing_configs D W (init D True) s
     = (True, emits [LoggerInfo (Msg ''Removing existing configs.''),
                     SpinnerUpdate (Msg ''Removing existing configs...''),
                     Sleep 2] s)
   \<and> create_links D W (init D True) s
     = (True, emits [LoggerInfo (Msg ''Creating system links.''),
                     SpinnerUpdate (Msg ''Linking new dotfiles...''),
                     Sleep 2] s)
   \<and> install_tpm D W (init D True) s
     = (True, emits [LoggerInfo (Msg ''Installing TPM (Tmux Plugin Manager)''),
                     SpinnerUpdate (Msg ''Installing TPM for tmux...''),
                     Sleep 2] s)
   \<and> install_lazyvim D W (init D True) s
     = (Returned True, emits [LoggerInfo (Msg ''Installing LazyVim''),
                              SpinnerUpdate (Msg ''Installing LazyVim...''),
                              Sleep 2] s)
   \<and> install D W (init D True) s = (Returned True, emits (dry_run_events D) s)
   \<and> fs (snd (install D W (init D True) s)) = fs s
   \<and> calls_of (new_events s (snd (install D W (init D True) s))) = []"
proof -
  have d: "dry_run (init D True)" by (simp add: init_def)
  have 1: "validate_sources (init D True) s
     = (True, emits [LoggerInfo (Msg ''Validating source dotfiles components.''),
                     SpinnerUpdate (Msg ''Validating source dotfiles components...''),
                     Sleep 2] s)" for s
    by (simp add: validate_sources_def d)
  have 2: "copy_dotfiles D W (init D True) s
     = (True, emits [LoggerInfo (MsgPath ''Copying dotfiles to {USER_DOTFILES_DIR}''
                                   (USER_DOTFILES_DIR D)),
                     SpinnerUpdate (Msg ''Copying dotfiles...''),
                     Sleep 2] s)" for s
    by (simp add: copy_dotfiles_def d)
  have 3: "verify_copy (init D True) s
     = (True, emits [LoggerInfo (Msg ''Checking if copied successfully or not.'')] s)" for s
    by (simp add: verify_copy_def d)
  have 4: "remove_existing_configs D W (init D True) s
     = (True, emits [LoggerInfo (Msg ''Removing existing configs.''),
                     SpinnerUpdate (Msg ''Removing existing configs...''),
                     Sleep 2] s)" for s
    by (simp add: remove_existing_configs_def d)
  have 5: "create_links D W (init D True) s
     = (True, emits [LoggerInfo (Msg ''Creating system links.''),
                     SpinnerUpdate (Msg ''Linking new dotfiles...''),
                     Sleep 2] s)" for s
    by (simp add: create_links_def d)
  have 6: "install_tpm D W (init D True) s
     = (True, emits [LoggerInfo (Msg ''Installing TPM (Tmux Plugin Manager)''),
                     SpinnerUpdate (Msg ''Installing TPM for tmux...''),
                     Sleep 2] s)" for s
    by (simp add: install_tpm_def d)
  have 7: "install_lazyvim D W (init D True) s
     = (Returned True, emits [LoggerInfo (Msg ''Installing LazyVim''),
                              SpinnerUpdate (Msg ''Installing LazyVim...''),
                              Sleep 2] s)" for s
    by (simp add: install_lazyvim_def d)
  have 8: "install D W (init D True) s = (Returned True, emits (dry_run_events D) s)"
    unfolding install_def 1 2 3 4 5 6 7 by (simp add: dry_run_events_def)
  have 9: "calls_of (dry_run_events D) = []"
    by (simp add: dry_run_events_def)
  show ?thesis
    unfolding 8 using 1 2 3 4 5 6 7 9 by simp
qed

section \<open>The pipeline stops at the first failing step\<close>

text \<open>
  Claim C2. Name the result of each of the seven steps, each run in the state its
  predecessor left. If a step returns false after all earlier ones returned true, then
  \<open>install\<close> returns false in exactly the state that step left, except that the spinner is
  closed: no later step has added an event or changed the file system. In particular, on
  a non-dry run in which some source path is missing, \<open>install\<close> returns false, logs and
  reports the first missing path, has called nothing but \<open>path_lexists\<close> on the source
  paths up to that one, and leaves the file system as it was, so no staging directory has
  been created.
\<close>

theorem install_fail_fast:
  assumes "validate_sources self (emits install_started s) = (r1, s1)"
    and "copy_dotfiles D W self s1 = (r2, s2)"
    and "verify_copy self s2 = (r3, s3)"
    and "remove_existing_configs D W self s3 = (r4, s4)"
    and "create_links D W self s4 = (r5, s5)"
    and "install_tpm D W self (emits dotfiles_installed s5) = (r6, s6)"
    and "install_lazyvim D W self s6 = (r7, s7)"
  shows "(\<not> r1 \<longrightarrow> install D W self s = (Returned False, emits [SpinnerExit] s1))
       \<and> (r1 \<and> \<not> r2 \<longrightarrow> install D W self s = (Returned False, emits [SpinnerExit] s2))
       \<and> (r1 \<and> r2 \<and> \<not> r3 \<longrightarrow> install D W self s = (Returned False, emits [SpinnerExit] s3))
       \<and> (r1 \<and> r2 \<and> r3 \<and> \<not> r4 \<longrightarrow>
            install D W self s = (Returned False, emits [SpinnerExit] s4))
       \<and> (r1 \<and> r2 \<and> r3 \<and> r4 \<and> \<not> r5 \<longrightarrow>
            install D W self s = (Returned False, emits [SpinnerExit] s5))
       \<and> (r1 \<and> r2 \<and> r3 \<and> r4 \<and> r5 \<and> \<not> r6 \<longrightarrow>
            install D W self s = (Returned False, emits [SpinnerExit] s6))
       \<and> (r1 \<and> r2 \<and> r3 \<and> r4 \<and> r5 \<and> r6 \<and> r7 = Returned False \<longrightarrow>
            install D W self s = (Returned False, emits [SpinnerExit] s7))
       \<and> (\<forall>p rest.
             \<not> dry_run self
           \<and> filter (\<lambda>p. \<not> path_lexists (fs s) p) (source_dotfiles_components_paths self)
               = p # rest \<longrightarrow>
             install D W self s
               = (Returned False,
                  emits (install_started
                     @ [LoggerInfo (Msg ''Validating source dotfiles components.''),
                        SpinnerUpdate (Msg ''Validating source dotfiles components...'')]
                     @ map (\<lambda>p. Call (PathLexists p))
                         (takeWhile (path_lexists (fs s)) (source_dotfiles_components_paths self))
                     @ [Call (PathLexists p),
                        LoggerError (MsgPath ''Missing source: {i}.'' p),
                        SpinnerError (MsgPath ''Missing source: {i}, exiting...'' p),
                        SpinnerExit]) s)
           \<and> fs (snd (install D W self s)) = fs s
           \<and> \<not> path_lexists (fs s) p
           \<and> calls_of (new_events s (snd (install D W self s)))
               = map PathLexists
                   (takeWhile (path_lexists (fs s)) (source_dotfiles_components_paths self) @ [p]))"
proof -
  have i: "emits [LogHeading ''Dotfiles installer started'',
                  PrintHeader ''Installing dotfiles.'',
                  SpinnerEnter ''Installing dotfiles...''] s = emits install_started s"
    by (simp add: install_started_def)
  have m: "emits [Sleep 1, SpinnerSuccess (Msg ''Dotfiles installed successfully!''),
                  SpinnerExit, SpinnerEnter ''Installing third-party dots...''] s5
           = emits dotfiles_installed s5"
    by (simp add: dotfiles_installed_def)
  have chain: "install D W self s =
     (if \<not> r1 then (Returned False, emits [SpinnerExit] s1)
      else if \<not> r2 then (Returned False, emits [SpinnerExit] s2)
      else if \<not> r3 then (Returned False, emits [SpinnerExit] s3)
      else if \<not> r4 then (Returned False, emits [SpinnerExit] s4)
      else if \<not> r5 then (Returned False, emits [SpinnerExit] s5)
      else if \<not> r6 then (Returned False, emits [SpinnerExit] s6)
      else case r7 of
             Raised e \<Rightarrow> (Raised e, emits [SpinnerExit] s7)
           | Returned b \<Rightarrow>
               if \<not> b then (Returned False, emits [SpinnerExit] s7)
               else (Returned True, emits [SpinnerExit, PrintLine] s7))"
    unfolding install_def i Let_def assms prod.case m
    by (simp split: outcome.splits)
  have B: "install D W self s
               = (Returned False,
                  emits (install_started
                     @ [LoggerInfo (Msg ''Validating source dotfiles components.''),
                        SpinnerUpdate (Msg ''Validating source dotfiles components...'')]
                     @ map (\<lambda>p. Call (PathLexists p))
                         (takeWhile (path_lexists (fs s)) (source_dotfiles_components_paths self))
                     @ [Call (PathLexists p),
                        LoggerError (MsgPath ''Missing source: {i}.'' p),
                        SpinnerError (MsgPath ''Missing source: {i}, exiting...'' p),
                        SpinnerExit]) s)"
    if nd: "\<not> dry_run self"
      and f: "filter (\<lambda>p. \<not> path_lexists (fs s) p) (source_dotfiles_components_paths self)
               = p # rest" for p rest
  proof -
    have "validate_sources self (emits install_started s)
          = (False, emits (install_started
                     @ [LoggerInfo (Msg ''Validating source dotfiles components.''),
                        SpinnerUpdate (Msg ''Validating source dotfiles components...'')]
                     @ map (\<lambda>p. Call (PathLexists p))
                         (takeWhile (path_lexists (fs s)) (source_dotfiles_components_paths self))
                     @ [Call (PathLexists p),
                        LoggerError (MsgPath ''Missing source: {i}.'' p),
                        SpinnerError (MsgPath ''Missing source: {i}, exiting...'' p)]) s)"
      using nd f by (simp add: validate_sources_def validate_sources_loop_eq)
    with assms(1) chain show ?thesis by auto
  qed
  have B2: "\<not> path_lexists (fs s) p"
    if f: "filter (\<lambda>p. \<not> path_lexists (fs s) p) (source_dotfiles_components_paths self)
               = p # rest" for p rest
  proof -
    have "p \<in> set (filter (\<lambda>p. \<not> path_lexists (fs s) p) (source_dotfiles_components_paths self))"
      unfolding f by simp
    thus ?thesis by simp
  qed
  have c: "calls_of (map (\<lambda>p. Call (PathLexists p)) qs) = map PathLexists qs" for qs
    by (induction qs) auto
  show ?thesis
  proof (intro conjI allI impI)
    fix p rest
    assume h: "\<not> dry_run self
           \<and> filter (\<lambda>p. \<not> path_lexists (fs s) p) (source_dotfiles_components_paths self)
               = p # rest"
    note b = B[OF conjunct1[OF h] conjunct2[OF h]]
    show "install D W self s
               = (Returned False,
                  emits (install_started
                     @ [LoggerInfo (Msg ''Validating source dotfiles components.''),
                        SpinnerUpdate (Msg ''Validating source dotfiles components...'')]
                     @ map (\<lambda>p. Call (PathLexists p))
                         (takeWhile (path_lexists (fs s)) (source_dotfiles_components_paths self))
                     @ [Call (PathLexists p),
                        LoggerError (MsgPath ''Missing source: {i}.'' p),
                        SpinnerError (MsgPath ''Missing source: {i}, exiting...'' p),
                        SpinnerExit]) s)" by (rule b)
    show "fs (snd (install D W self s)) = fs s" unfolding b by simp
    show "\<not> path_lexists (fs s) p" using B2 h by blast
    show "calls_of (new_events s (snd (install D W self s)))
               = map PathLexists
                   (takeWhile (path_lexists (fs s)) (source_dotfiles_components_paths self) @ [p])"
      unfolding b by (simp add: c install_started_def)
  qed (simp_all add: chain)
qed


theorem install_fail_fast_witness:
  "\<not> dry_run (init demo_dirs False)
   \<and> filter (\<lambda>p. \<not> path_lexists (fs \<lparr>fs = kitty_missing, trace = []\<rparr>) p)
        (source_dotfiles_components_paths (init demo_dirs False))
       = [[''repo'', ''dotfiles'', ''kitty'']]
   \<and> fs (snd (install demo_dirs rofi_busy (init demo_dirs False)
                \<lparr>fs = kitty_missing, trace = []\<rparr>)) = kitty_missing
   \<and> calls_of (new_events \<lparr>fs = kitty_missing, trace = []\<rparr>
        (snd (install demo_dirs rofi_busy (init demo_dirs False)
                \<lparr>fs = kitty_missing, trace = []\<rparr>)))
       = map PathLexists
           (takeWhile (path_lexists (fs \<lparr>fs = kitty_missing, trace = []\<rparr>))
              (source_dotfiles_components_paths (init demo_dirs False))
            @ [[''repo'', ''dotfiles'', ''kitty'']])
   \<and> fst (validate_sources (init demo_dirs False) (emits install_started busy_start))
   \<and> \<not> fst (copy_dotfiles demo_dirs disk_full (init demo_dirs False) busy_s1)
   \<and> install demo_dirs disk_full (init demo_dirs False) busy_start
       = (Returned False, emits [SpinnerExit] busy_s2)"
proof -
  note sp = surjective_pairing
  have d: "\<not> dry_run (init demo_dirs False)" by (simp add: init_def)
  have f: "filter (\<lambda>p. \<not> path_lexists (fs \<lparr>fs = kitty_missing, trace = []\<rparr>) p)
        (source_dotfiles_components_paths (init demo_dirs False))
       = [[''repo'', ''dotfiles'', ''kitty'']]"
    by code_simp
  note A = install_fail_fast[OF sp sp sp sp sp sp sp,
      where self = "init demo_dirs False" and s = "\<lparr>fs = kitty_missing, trace = []\<rparr>"
        and D = demo_dirs and W = rofi_busy]
  note A8 = A[THEN conjunct2, THEN conjunct2, THEN conjunct2, THEN conjunct2, THEN conjunct2,
      THEN conjunct2, THEN conjunct2, rule_format, OF conjI[OF d f]]
  have a1: "fs (snd (install demo_dirs rofi_busy (init demo_dirs False)
                \<lparr>fs = kitty_missing, trace = []\<rparr>)) = kitty_missing"
    using A8[THEN conjunct2, THEN conjunct1] by (simp only: state.simps)
  note a2 = A8[THEN conjunct2, THEN conjunct2, THEN conjunct2]
  have r1: "fst (validate_sources (init demo_dirs False) (emits install_started busy_start))"
    by code_simp
  have r2: "\<not> fst (copy_dotfiles demo_dirs disk_full (init demo_dirs False) busy_s1)"
    by code_simp
  note B = install_fail_fast[OF sp sp sp sp sp sp sp,
      where self = "init demo_dirs False" and s = busy_start
        and D = demo_dirs and W = disk_full]
  have b: "install demo_dirs disk_full (init demo_dirs False) busy_start
       = (Returned False, emits [SpinnerExit] busy_s2)"
    unfolding busy_s2_def
    by (rule B[THEN conjunct2, THEN conjunct1, rule_format, OF conjI[OF r1 r2[unfolded busy_s1_def]],
          folded busy_s1_def])
  show ?thesis
    by (intro conjI d f a1 a2 r1 r2 b)
qed

section \<open>Every step derives a component's paths in the same way\<close>

text \<open>
  Claim C8. The constructor stores, for every component, \<open>HYPRDOTS_DOTFILES_DIR / name\<close>
  and \<open>USER_DOTFILES_DIR / name\<close>. Step 1 queries the former paths (up to the first
  missing one), step 3 queries \<open>USER_DOTFILES_DIR / name\<close> for every component, step 4
  removes \<open>USER_CONFIGS_DIR / name\<close> (up to the first failure), and step 5 links
  \<open>USER_CONFIGS_DIR / name\<close> to \<open>USER_DOTFILES_DIR / name\<close>: the path verified in step 3
  is the link source of step 5 and the path removed in step 4 is its link target.
\<close>

theorem component_paths_agree:
  "source_dotfiles_components_paths (init D dry)
     = map (joinpath (HYPRDOTS_DOTFILES_DIR D)) (dotfiles_components (init D dry))
   \<and> target_dotfiles_components_paths (init D dry)
     = map (joinpath (USER_DOTFILES_DIR D)) (dotfiles_components (init D dry))
   \<and> dotfiles_components (init D dry) = components
   \<and> (\<exists>k. calls_of (new_events s (snd (validate_sources (init D False) s)))
        = map (\<lambda>c. PathLexists (joinpath (HYPRDOTS_DOTFILES_DIR D) c)) (take k components))
   \<and> calls_of (new_events s (snd (verify_copy (init D False) s)))
        = map (\<lambda>c. PathLexists (joinpath (USER_DOTFILES_DIR D) c)) components
   \<and> (\<exists>k. calls_of (new_events s (snd (remove_existing_configs D W (init D False) s)))
        = map (\<lambda>c. Remove (joinpath (USER_CONFIGS_DIR D) c)) (take k components))
   \<and> calls_of (new_events s (snd (create_links D W (init D False) s)))
        = map (\<lambda>c. CreateSymlink (joinpath (USER_DOTFILES_DIR D) c)
                                  (joinpath (USER_CONFIGS_DIR D) c)) components"
proof (intro conjI)
  show "source_dotfiles_components_paths (init D dry)
     = map (joinpath (HYPRDOTS_DOTFILES_DIR D)) (dotfiles_components (init D dry))"
    by (simp add: init_def)
  show "target_dotfiles_components_paths (init D dry)
     = map (joinpath (USER_DOTFILES_DIR D)) (dotfiles_components (init D dry))"
    by (simp add: init_def)
  show "dotfiles_components (init D dry) = components"
    by (simp add: init_def)
qed (rule validate_sources_calls verify_copy_calls remove_existing_configs_calls
          create_links_calls)+

section \<open>Clone faults never leave the bootstrap steps\<close>

text \<open>
  Claim C9. On a non-dry run, whenever the cloning \<open>run_command\<close> raises an exception
  (a non-zero return code raises \<open>CalledProcessError\<close>, a failure to spawn raises what the
  call raised), \<open>_install_tpm\<close> returns false and \<open>_install_lazyvim\<close> returns false (it
  does not raise), each after logging the exception and reporting the failure by name.
  An exception that does leave \<open>install\<close> was raised by \<open>Path.rename\<close>, never by a clone.
\<close>

theorem clone_faults_are_caught:
  assumes "\<not> dry_run self"
  shows "(\<forall>e f. run_command W (tpm_argv D)
                   (fs (tpm_remove_existing D W (emits tpm_started s))) = (Some e, f) \<longrightarrow>
            install_tpm D W self s
              = (False,
                 emits [Call (RunCommand (tpm_argv D)),
                        LoggerError (MsgExn ''Failed to install TPM: {e}'' e),
                        SpinnerError (Msg ''Failed to install TPM for tmux'')]
                   ((tpm_remove_existing D W (emits tpm_started s))\<lparr>fs := f\<rparr>)))
       \<and> (\<forall>s2 e f. lazyvim_backup D W (lazyvim_remove_existing D W (emits lazyvim_started s)) = (None, s2)
                  \<and> run_command W (lazyvim_argv D) (fs s2) = (Some e, f) \<longrightarrow>
            install_lazyvim D W self s
              = (Returned False,
                 emits [Call (RunCommand (lazyvim_argv D)),
                        LoggerError (MsgExn ''Failed to install LazyVim: {e}'' e),
                        SpinnerError (Msg ''Failed to install LazyVim'')]
                   (s2\<lparr>fs := f\<rparr>)))
       \<and> (\<forall>argv f rc f'. subprocess_run W argv f = Completed rc f' \<and> rc \<noteq> 0 \<longrightarrow>
            run_command W argv f = (Some (CalledProcessError rc), f'))
       \<and> (\<forall>argv f e. subprocess_run W argv f = Failed e \<longrightarrow>
            run_command W argv f = (Some e, f))
       \<and> (\<forall>e s'. install D W self s = (Raised e, s') \<longrightarrow>
            (\<exists>f. rename W (nvim_config_dir D) (backup_dir D) f = Inl e))"
proof (intro conjI allI impI)
  fix e f
  assume "run_command W (tpm_argv D) (fs (tpm_remove_existing D W (emits tpm_started s)))
            = (Some e, f)"
  thus "install_tpm D W self s
              = (False,
                 emits [Call (RunCommand (tpm_argv D)),
                        LoggerError (MsgExn ''Failed to install TPM: {e}'' e),
                        SpinnerError (Msg ''Failed to install TPM for tmux'')]
                   ((tpm_remove_existing D W (emits tpm_started s))\<lparr>fs := f\<rparr>))"
    by (rule install_tpm_caught[OF assms])
next
  fix s2 e f
  assume h: "lazyvim_backup D W (lazyvim_remove_existing D W (emits lazyvim_started s)) = (None, s2)
                  \<and> run_command W (lazyvim_argv D) (fs s2) = (Some e, f)"
  show "install_lazyvim D W self s
              = (Returned False,
                 emits [Call (RunCommand (lazyvim_argv D)),
                        LoggerError (MsgExn ''Failed to install LazyVim: {e}'' e),
                        SpinnerError (Msg ''Failed to install LazyVim'')]
                   (s2\<lparr>fs := f\<rparr>))"
    by (rule install_lazyvim_caught[OF assms conjunct1[OF h] conjunct2[OF h]])
next
  fix argv f rc f'
  assume "subprocess_run W argv f = Completed rc f' \<and> rc \<noteq> 0"
  thus "run_command W argv f = (Some (CalledProcessError rc), f')"
    using run_command_faults by blast
next
  fix argv f e
  assume "subprocess_run W argv f = Failed e"
  thus "run_command W argv f = (Some e, f)"
    using run_command_faults by blast
next
  fix e s'
  assume "install D W self s = (Raised e, s')"
  thus "\<exists>f. rename W (nvim_config_dir D) (backup_dir D) f = Inl e"
    by (rule install_raises)
qed

theorem clone_faults_are_caught_witness:
  "\<not> dry_run (init demo_dirs False)
   \<and> run_command rofi_busy (tpm_argv demo_dirs)
        (fs (tpm_remove_existing demo_dirs rofi_busy (emits tpm_started nothing)))
       = (Some FileNotFoundError, [])
   \<and> install_tpm demo_dirs rofi_busy (init demo_dirs False) nothing
       = (False,
          emits [Call (RunCommand (tpm_argv demo_dirs)),
                 LoggerError (MsgExn ''Failed to install TPM: {e}'' FileNotFoundError),
                 SpinnerError (Msg ''Failed to install TPM for tmux'')]
            ((tpm_remove_existing demo_dirs rofi_busy (emits tpm_started nothing))\<lparr>fs := []\<rparr>))
   \<and> lazyvim_backup demo_dirs clone_refused
          (lazyvim_remove_existing demo_dirs clone_refused (emits lazyvim_started nothing)) = (None, no_nvim)
   \<and> run_command clone_refused (lazyvim_argv demo_dirs) (fs no_nvim)
       = (Some (CalledProcessError 128), [])
   \<and> install_lazyvim demo_dirs clone_refused (init demo_dirs False) nothing
       = (Returned False,
          emits [Call (RunCommand (lazyvim_argv demo_dirs)),
                 LoggerError (MsgExn ''Failed to install LazyVim: {e}'' (CalledProcessError 128)),
                 SpinnerError (Msg ''Failed to install LazyVim'')]
            (no_nvim\<lparr>fs := []\<rparr>))"
proof -
  have d: "\<not> dry_run (init demo_dirs False)" by (simp add: init_def)
  have h1: "run_command rofi_busy (tpm_argv demo_dirs)
        (fs (tpm_remove_existing demo_dirs rofi_busy (emits tpm_started nothing)))
       = (Some FileNotFoundError, [])"
    by code_simp
  have "fst (lazyvim_backup demo_dirs clone_refused
          (lazyvim_remove_existing demo_dirs clone_refused (emits lazyvim_started nothing))) = None"
    by code_simp
  hence h2: "lazyvim_backup demo_dirs clone_refused
          (lazyvim_remove_existing demo_dirs clone_refused (emits lazyvim_started nothing)) = (None, no_nvim)"
    unfolding no_nvim_def by (simp add: prod_eq_iff)
  have h3: "run_command clone_refused (lazyvim_argv demo_dirs) (fs no_nvim)
       = (Some (CalledProcessError 128), [])"
    by code_simp
  note T1 = clone_faults_are_caught[OF d, where W = rofi_busy and D = demo_dirs and s = nothing]
  note T2 = clone_faults_are_caught[OF d, where W = clone_refused and D = demo_dirs and s = nothing]
  note c1 = T1[THEN conjunct1, rule_format, OF h1]
  note c2 = T2[THEN conjunct2, THEN conjunct1, rule_format, OF conjI[OF h2 h3]]
  show ?thesis
    by (intro conjI d h1 c1 h2 h3 c2)
qed

section \<open>A dangling previous backup makes the editor bootstrap raise\<close>

text \<open>
  Claim C7 says that whenever the live \<open>USER_CONFIGS_DIR / nvim\<close> exists, any previous
  \<open>nvim.backup\<close> is deleted before the rename, and that afterwards the backup holds the
  live contents. The run below starts with a live directory and a previous backup that is
  a dangling symbolic link. \<open>backup_dir.exists()\<close> is false for it, so it is not removed;
  \<open>rename\<close> of a directory onto a non-directory then raises, outside the \<open>try\<close>: the
  step neither returns nor backs anything up, and the file system is as before.
\<close>

theorem install_lazyvim_dangling_backup_raises:
  "path_exists stale_backup (nvim_config_dir demo_dirs)
   \<and> lookup stale_backup (nvim_config_dir demo_dirs) = Some Dir
   \<and> path_lexists stale_backup (backup_dir demo_dirs)
   \<and> \<not> path_exists stale_backup (backup_dir demo_dirs)
   \<and> install_lazyvim demo_dirs clone_refused (init demo_dirs False)
         \<lparr>fs = stale_backup, trace = []\<rparr>
       = (Raised NotADirectoryError,
          \<lparr>fs = stale_backup,
           trace = [LoggerInfo (Msg ''Installing LazyVim''),
                    SpinnerUpdate (Msg ''Installing LazyVim...''),
                    Call (PathExists [''home'', ''dots'', ''nvim'']),
                    Call (PathExists [''home'', ''config'', ''nvim'']),
                    Call (PathExists [''home'', ''config'', ''nvim.backup'']),
                    Call (Rename [''home'', ''config'', ''nvim'']
                                 [''home'', ''config'', ''nvim.backup''])]\<rparr>)"
  by code_simp

section \<open>A broken link at the live editor configuration is left alone\<close>

text \<open>
  Claim C10. The existence checks of the two bootstrap steps follow symbolic links. If
  \<open>USER_CONFIGS_DIR / nvim\<close> is a broken link when \<open>_install_lazyvim\<close> checks it, the
  backup part calls neither \<open>remove\<close> nor \<open>rename\<close> and changes nothing, so no
  \<open>nvim.backup\<close> appears. A broken link at the staged \<open>nvim\<close> path or at the \<open>tpm\<close>
  path is not removed before cloning. Steps 1 to 6 never change what is at
  \<open>USER_CONFIGS_DIR / nvim\<close> (it is not a component), and unless that path resolved when
  it was checked, it and \<open>nvim.backup\<close> are the same after the whole run as before it.
  This holds when the staging root is not a prefix of these two paths and a clone writes
  only below its destination (below \<open>tmux/plugins\<close> for the plugin manager).
\<close>

theorem broken_nvim_link_is_left_alone:
  assumes "validate_sources (init D False) (emits install_started s) = (r1, s1)"
    and "copy_dotfiles D W (init D False) s1 = (r2, s2)"
    and "verify_copy (init D False) s2 = (r3, s3)"
    and "remove_existing_configs D W (init D False) s3 = (r4, s4)"
    and "create_links D W (init D False) s4 = (r5, s5)"
    and "install_tpm D W (init D False) (emits dotfiles_installed s5) = (r6, s6)"
    and "\<not> prefix (USER_DOTFILES_DIR D) (nvim_config_dir D)"
    and "\<not> prefix (USER_DOTFILES_DIR D) (backup_dir D)"
    and "writes_below W (tpm_argv D) (plugins_dir D)"
    and "writes_below W (lazyvim_argv D) (lazyvim_dir D)"
  shows "(\<forall>t. broken_link (fs t) (nvim_config_dir D) \<longrightarrow>
            lazyvim_backup D W t = (None, emits [Call (PathExists (nvim_config_dir D))] t))
       \<and> (\<forall>t. broken_link (fs t) (lazyvim_dir D) \<longrightarrow>
            lazyvim_remove_existing D W t = emits [Call (PathExists (lazyvim_dir D))] t)
       \<and> (\<forall>t. broken_link (fs t) (tpm_dir D) \<longrightarrow>
            tpm_remove_existing D W t = emits [Call (PathExists (tpm_dir D))] t)
       \<and> lookup (fs s6) (nvim_config_dir D) = lookup (fs s) (nvim_config_dir D)
       \<and> (path_exists (fs (lazyvim_remove_existing D W (emits lazyvim_started s6)))
             (nvim_config_dir D)
          \<or> lookup (fs (snd (install D W (init D False) s))) (nvim_config_dir D)
               = lookup (fs s) (nvim_config_dir D)
            \<and> lookup (fs (snd (install D W (init D False) s))) (backup_dir D)
               = lookup (fs s) (backup_dir D))"
proof -
  have n: "\<forall>c \<in> set components. \<not> prefix (joinpath (USER_CONFIGS_DIR D) c) (nvim_config_dir D)"
    using nvim_not_component(1) by (auto simp: nvim_config_dir_def prefix_joinpath_same)
  have b: "\<forall>c \<in> set components. \<not> prefix (joinpath (USER_CONFIGS_DIR D) c) (backup_dir D)"
    using nvim_not_component(2) by (auto simp: backup_dir_def prefix_joinpath_same)
  have 4: "lookup (fs s6) (nvim_config_dir D) = lookup (fs s) (nvim_config_dir D)"
    by (rule steps_1_to_6_frame(6)[OF assms(1-6) assms(7) n assms(9)])
  have 5: "lookup (fs (snd (install D W (init D False) s))) (nvim_config_dir D)
               = lookup (fs s) (nvim_config_dir D)
            \<and> lookup (fs (snd (install D W (init D False) s))) (backup_dir D)
               = lookup (fs s) (backup_dir D)"
    if "\<not> path_exists (fs (lazyvim_remove_existing D W (emits lazyvim_started s6)))
             (nvim_config_dir D)"
    using install_frame_no_backup[OF assms(1-6) assms(7) n assms(9,10) that]
      install_frame_no_backup[OF assms(1-6) assms(8) b assms(9,10) that] by simp
  show ?thesis
    using 4 5 lazyvim_backup_broken lazyvim_remove_existing_broken tpm_remove_existing_broken
    by blast
qed

theorem broken_nvim_link_is_left_alone_witness:
  "\<not> prefix (USER_DOTFILES_DIR demo_dirs) (nvim_config_dir demo_dirs)
   \<and> \<not> prefix (USER_DOTFILES_DIR demo_dirs) (backup_dir demo_dirs)
   \<and> writes_below clones_ok (tpm_argv demo_dirs) (plugins_dir demo_dirs)
   \<and> writes_below clones_ok (lazyvim_argv demo_dirs) (lazyvim_dir demo_dirs)
   \<and> broken_link (fs full_start) (nvim_config_dir demo_dirs)
   \<and> lazyvim_backup demo_dirs clones_ok full_start
       = (None, emits [Call (PathExists (nvim_config_dir demo_dirs))] full_start)
   \<and> \<not> path_exists
         (fs (lazyvim_remove_existing demo_dirs clones_ok (emits lazyvim_started full_s6)))
         (nvim_config_dir demo_dirs)
   \<and> lookup (fs (snd (install demo_dirs clones_ok (init demo_dirs False) full_start)))
         (nvim_config_dir demo_dirs)
       = lookup (fs full_start) (nvim_config_dir demo_dirs)
   \<and> lookup (fs (snd (install demo_dirs clones_ok (init demo_dirs False) full_start)))
         (backup_dir demo_dirs)
       = lookup (fs full_start) (backup_dir demo_dirs)"
proof -
  note sp = surjective_pairing
  have d1: "\<not> prefix (USER_DOTFILES_DIR demo_dirs) (nvim_config_dir demo_dirs)"
    by (simp add: demo_dirs_def nvim_config_dir_def joinpath_def)
  have d2: "\<not> prefix (USER_DOTFILES_DIR demo_dirs) (backup_dir demo_dirs)"
    by (simp add: demo_dirs_def backup_dir_def joinpath_def)
  have b: "broken_link (fs full_start) (nvim_config_dir demo_dirs)"
    by code_simp
  have np: "\<not> path_exists
         (fs (lazyvim_remove_existing demo_dirs clones_ok (emits lazyvim_started full_s6)))
         (nvim_config_dir demo_dirs)"
    by code_simp
  note T = broken_nvim_link_is_left_alone[OF sp sp sp sp sp sp d1 d2 clones_ok_tpm
      clones_ok_lazyvim, where s = full_start]
  note c1 = T[THEN conjunct1, rule_format, OF b]
  note c5 = T[THEN conjunct2, THEN conjunct2, THEN conjunct2, THEN conjunct2,
      folded full_s1_def, folded full_s2_def, folded full_s3_def, folded full_s4_def,
      folded full_s5_def, folded full_s6_def]
  note q = or_elim_left[OF c5 np]
  show ?thesis
    by (intro conjI d1 d2 clones_ok_tpm clones_ok_lazyvim b c1 np q[THEN conjunct1]
          q[THEN conjunct2])
qed

section \<open>What a successful run establishes\<close>




text \<open>
  Two remarks on the conditions of the amended claim. A staging root inside the
  configuration root, under a name that is no component, meets the layout condition. And
  the condition on step 2 is needed: \<open>_copy_dotfiles\<close> ignores the result of
  \<open>remove(USER_DOTFILES_DIR)\<close>, so when that removal fails the step still returns true and
  a stale staged file, absent from the source, stays in the staged component.
\<close>

lemma nested_stage_meets_layout:
  "\<forall>n \<in> set components \<union> {''nvim'', ''nvim.backup''}.
     unrelated (joinpath (USER_CONFIGS_DIR nested_dirs) n) (USER_DOTFILES_DIR nested_dirs)"
  by (simp add: unrelated_def nested_dirs_def joinpath_def components_def)

lemma stale_file_survives_failed_removal:
  "fst (copy_dotfiles demo_dirs stage_busy (init demo_dirs False) stale_stage)
   \<and> lookup (fs (snd (copy_dotfiles demo_dirs stage_busy (init demo_dirs False) stale_stage)))
         [''home'', ''dots'', ''hypr'', ''stale.conf'']
       = Some (File ''stale'')
   \<and> lookup (fs stale_stage) [''repo'', ''dotfiles'', ''hypr'', ''stale.conf''] = None"
  by code_simp

end
